theory Spec2Isabelle
  imports Main "HOL-Library.Sublist"
begin

section \<open>Byte-range file systems of the PMTiles reader (src/aiopmtiles/io.py)\<close>

text \<open>
  The module defines one abstract class \<open>FileSystem\<close> and five concrete classes. Every
  method is a coroutine; a single handle is driven in program order, so each method is
  modelled as a function from the handle and the world to a result, the new handle and
  the new world. Every \<open>raise\<close>, failed \<open>assert\<close> and missing attribute is a value
  \<open>Inl e\<close> of the result type.
\<close>

subsection \<open>Values, errors and strings\<close>

type_synonym bytes = "char list"

datatype error =
    ValueError string
  | AssertionError string
  | ImportError string
  | TypeError string
  | AttributeError string
  | OSError string
  | RuntimeError string
  | OverflowError string
  | MemoryError
  | HTTPStatusError nat
  | ClientError string

datatype pyval = PyNone | PyBool bool | PyInt int | PyStr string

text \<open>Python truthiness, as \<open>if self.request_payer:\<close> uses it.\<close>

fun truthy :: "pyval \<Rightarrow> bool" where
  "truthy PyNone = False"
| "truthy (PyBool b) = b"
| "truthy (PyInt i) = (i \<noteq> 0)"
| "truthy (PyStr s) = (s \<noteq> [])"

text \<open>The decimal text of an integer, as an f-string prints it (\<open>f"{offset}"\<close>).\<close>

definition digit_char :: "nat \<Rightarrow> char" where
  "digit_char d = ''0123456789'' ! d"

fun str_nat :: "nat \<Rightarrow> string" where
  "str_nat n = (if n < 10 then [digit_char n] else str_nat (n div 10) @ [digit_char (n mod 10)])"

declare str_nat.simps [simp del]

definition str_int :: "int \<Rightarrow> string" where
  "str_int i = (if i < 0 then CHR ''-'' # str_nat (nat (- i)) else str_nat (nat i))"

text \<open>\<open>s.strip("/")\<close>: every leading and every trailing slash is removed.\<close>

definition strip_slash :: "string \<Rightarrow> string" where
  "strip_slash s =
     rev (dropWhile (\<lambda>c. c = CHR ''/'') (rev (dropWhile (\<lambda>c. c = CHR ''/'') s)))"

subsection \<open>The standard library's URL parser\<close>

text \<open>
  \<open>urllib.parse.urlparse\<close> belongs to the Python standard library, not to this module.
  The module reads three components of its result, and the parser may raise
  \<open>ValueError\<close>. It is a parameter of the model (a field of the environment below).
\<close>

record ParseResult =
  scheme :: string
  netloc :: string
  path :: string

subsection \<open>The environment of the module\<close>

text \<open>
  What the module takes from outside: whether the interpreter runs \<open>assert\<close>
  statements (\<open>__debug__\<close>, false under \<open>python -O\<close>), the two optional imports
  (\<open>aioboto3\<close> and \<open>GcpStorage\<close> are \<open>None\<close> when the import failed), the largest
  offset the file system lets a file be positioned at and the largest byte string the
  interpreter can allocate, the two settings of
  \<open>src.utilities.settings\<close>, the local disk, and the remote services. A remote service
  answers a request knowing the requests sent before it. \<open>AWS_S3_ASYNC_CLIENT\<close> is the
  address of the shared session object in the store. \<open>s3_resource_error\<close> and
  \<open>s3_object_error\<close> say whether the object-store client refuses to create the resource
  or the object reference. \<open>close_error\<close> says whether leaving the context at an address
  raises. \<open>s3_closed_error\<close> and \<open>gcs_closed_error\<close> say what the object-store and
  the cloud-storage client do with a request after their context was left: raise, or
  (\<open>None\<close>) open a connection again and serve it; this differs between releases of
  those libraries, and the module does not check.
\<close>

datatype request =
    HttpGet string "(string \<times> string) list"
  | S3GetObject string string "(string \<times> pyval) list"
  | GcsDownload string string "(string \<times> string) list"

record response =
  status_code :: nat
  content :: bytes

record env =
  urlparse :: "string \<Rightarrow> error + ParseResult"
  debug :: bool
  max_offset :: int
  max_alloc :: int
  aioboto3 :: bool
  GcpStorage :: bool
  AWS_S3_ASYNC_CLIENT :: nat
  IMAGE_BUCKET_NAME :: string
  disk :: "string \<Rightarrow> bytes option"
  http_server :: "request list \<Rightarrow> request \<Rightarrow> error + response"
  s3_service :: "request list \<Rightarrow> request \<Rightarrow> error + bytes"
  gcs_service :: "request list \<Rightarrow> request \<Rightarrow> error + bytes"
  s3_resource_error :: "error option"
  s3_object_error :: "string \<Rightarrow> string \<Rightarrow> error option"
  close_error :: "nat \<Rightarrow> error option"
  s3_closed_error :: "error option"
  gcs_closed_error :: "error option"

subsection \<open>Handles\<close>

datatype cls = LocalFileSystem | HttpFileSystem | S3FileSystem | AtlasS3FileSystem | GcsFileSystem

text \<open>
  One record holds the fields of all five dataclasses, with the class as a tag. A field
  declared \<open>field(init=False)\<close> without a default does not exist on a new instance, which
  is \<open>None\<close> here; reading it then raises \<open>AttributeError\<close>. \<open>ctx\<close> is the
  \<open>AsyncExitStack\<close>: the addresses of the contexts entered through it, the latest first.
\<close>

record handle =
  cls :: cls
  filepath :: string
  ctx :: "nat list"
  file' :: "nat option"
  client :: "nat option"
  request_payer :: pyval
  s3_session :: "nat option"
  s3_resource :: "nat option"
  s3_obj :: "(nat \<times> string \<times> string) option"
  gcs_client :: "nat option"
  gcs_bucket :: "string option"
  gcs_obj :: "string option"

definition new_handle :: "cls \<Rightarrow> string \<Rightarrow> handle" where
  "new_handle c fp =
     \<lparr>cls = c, filepath = fp, ctx = [], file' = None, client = None,
      request_payer = PyBool False, s3_session = None, s3_resource = None, s3_obj = None,
      gcs_client = None, gcs_bucket = None, gcs_obj = None\<rparr>"

text \<open>
  The generated \<open>__init__\<close> of a dataclass takes the fields with \<open>init=True\<close>:
  \<open>filepath\<close> everywhere, and \<open>request_payer\<close> for the S3 classes. Any other keyword is
  a \<open>TypeError\<close> (so is \<open>filepath\<close> given twice). \<open>kwargs\<close> is the keyword dictionary
  of the call, as an association list.
\<close>

type_synonym kwargs = "(string \<times> pyval) list"

fun unexpected_keyword :: "string list \<Rightarrow> kwargs \<Rightarrow> string option" where
  "unexpected_keyword allowed [] = None"
| "unexpected_keyword allowed ((k, v) # kws) =
     (if k \<in> set allowed then unexpected_keyword allowed kws else Some k)"

definition LocalFileSystem_init :: "string \<Rightarrow> kwargs \<Rightarrow> error + handle" where
  "LocalFileSystem_init fp kws =
     (case unexpected_keyword [] kws of
        Some k \<Rightarrow> Inl (TypeError k)
      | None \<Rightarrow> Inr (new_handle LocalFileSystem fp))"

definition HttpFileSystem_init :: "string \<Rightarrow> kwargs \<Rightarrow> error + handle" where
  "HttpFileSystem_init fp kws =
     (case unexpected_keyword [] kws of
        Some k \<Rightarrow> Inl (TypeError k)
      | None \<Rightarrow> Inr (new_handle HttpFileSystem fp))"

text \<open>
  \<open>S3FileSystem.__post_init__\<close>, which \<open>AtlasS3FileSystem\<close> inherits. Its body is one
  \<open>assert\<close>, which the interpreter runs only when \<open>__debug__\<close> is true.
\<close>

definition S3_post_init :: "env \<Rightarrow> handle \<Rightarrow> error + handle" where
  "S3_post_init e h =
     (if \<not> debug e \<or> aioboto3 e then Inr h
      else Inl (AssertionError
        (CHR 0x27 # ''aioboto3'' @ CHR 0x27 # '' must be installed to use S3 FileSystem'')))"

definition S3_init :: "cls \<Rightarrow> env \<Rightarrow> string \<Rightarrow> kwargs \<Rightarrow> error + handle" where
  "S3_init c e fp kws =
     (case unexpected_keyword [''request_payer''] kws of
        Some k \<Rightarrow> Inl (TypeError k)
      | None \<Rightarrow>
          S3_post_init e
            ((new_handle c fp)\<lparr>request_payer :=
               (case map_of kws ''request_payer'' of None \<Rightarrow> PyBool False | Some v \<Rightarrow> v)\<rparr>))"

definition S3FileSystem_init :: "env \<Rightarrow> string \<Rightarrow> kwargs \<Rightarrow> error + handle" where
  "S3FileSystem_init = S3_init S3FileSystem"

definition AtlasS3FileSystem_init :: "env \<Rightarrow> string \<Rightarrow> kwargs \<Rightarrow> error + handle" where
  "AtlasS3FileSystem_init = S3_init AtlasS3FileSystem"

definition Gcs_post_init :: "env \<Rightarrow> handle \<Rightarrow> error + handle" where
  "Gcs_post_init e h =
     (if \<not> debug e \<or> GcpStorage e then Inr h
      else Inl (AssertionError
        (CHR 0x27 # ''gcloud-aio-storage'' @ CHR 0x27 # '' must be installed to use GCS FileSystem'')))"

definition GcsFileSystem_init :: "env \<Rightarrow> string \<Rightarrow> kwargs \<Rightarrow> error + handle" where
  "GcsFileSystem_init e fp kws =
     (case unexpected_keyword [] kws of
        Some k \<Rightarrow> Inl (TypeError k)
      | None \<Rightarrow> Gcs_post_init e (new_handle GcsFileSystem fp))"

subsection \<open>\<open>FileSystem.create_from_filepath\<close>\<close>

definition not_supported :: "string \<Rightarrow> string" where
  "not_supported s = CHR 0x27 # s @ CHR 0x27 # '' is not supported''"

definition create_from_filepath :: "env \<Rightarrow> string \<Rightarrow> kwargs \<Rightarrow> error + handle" where
  "create_from_filepath e fp kws =
     (case urlparse e fp of
        Inl err \<Rightarrow> Inl err
      | Inr parsed \<Rightarrow>
          if scheme parsed \<in> {''http'', ''https''} then HttpFileSystem_init fp kws
          else if scheme parsed = ''s3'' then S3FileSystem_init e fp kws
          else if scheme parsed = ''atlas'' then AtlasS3FileSystem_init e fp kws
          else if scheme parsed = ''gs'' then GcsFileSystem_init e fp kws
          else if scheme parsed = ''file'' then LocalFileSystem_init fp kws
          else if scheme parsed \<noteq> [] then Inl (ValueError (not_supported (scheme parsed)))
          else LocalFileSystem_init fp kws)"

subsection \<open>The store of client objects\<close>

text \<open>
  The objects the handles acquire live in a store, addressed by their index. A file object
  carries its content, its position and whether it is closed; the clients carry whether
  they are closed; an S3 resource remembers the session it was made from. A session
  (\<open>aioboto3.Session\<close>) is not a context manager and has nothing to close.
\<close>

datatype obj =
    File bytes nat bool
  | AsyncClient bool
  | Session
  | S3Resource nat bool
  | Storage bool

record world =
  heap :: "obj list"
  sent :: "request list"

definition obj_at :: "world \<Rightarrow> nat \<Rightarrow> obj option" where
  "obj_at w a = (if a < length (heap w) then Some (heap w ! a) else None)"

definition alloc :: "world \<Rightarrow> obj \<Rightarrow> nat \<times> world" where
  "alloc w ob = (length (heap w), w\<lparr>heap := heap w @ [ob]\<rparr>)"

text \<open>What the \<open>__aexit__\<close> of an entered context does to its object.\<close>

fun close_obj :: "obj \<Rightarrow> obj" where
  "close_obj (File c p b) = File c p True"
| "close_obj (AsyncClient b) = AsyncClient True"
| "close_obj Session = Session"
| "close_obj (S3Resource s b) = S3Resource s True"
| "close_obj (Storage b) = Storage True"

definition close_at :: "nat \<Rightarrow> obj list \<Rightarrow> obj list" where
  "close_at a hp = (if a < length hp then hp[a := close_obj (hp ! a)] else hp)"

text \<open>
  Whether an object holds nothing open any more: a closed file or client, and a session
  always.
\<close>

fun released :: "obj \<Rightarrow> bool" where
  "released (File c p b) = b"
| "released (AsyncClient b) = b"
| "released Session = True"
| "released (S3Resource s b) = b"
| "released (Storage b) = b"

fun is_File :: "obj \<Rightarrow> bool" where
  "is_File (File c p b) = True"
| "is_File ob = False"

fun is_AsyncClient :: "obj \<Rightarrow> bool" where
  "is_AsyncClient (AsyncClient b) = True"
| "is_AsyncClient ob = False"

fun is_S3Resource :: "obj \<Rightarrow> bool" where
  "is_S3Resource (S3Resource s b) = True"
| "is_S3Resource ob = False"

fun is_Storage :: "obj \<Rightarrow> bool" where
  "is_Storage (Storage b) = True"
| "is_Storage ob = False"

subsection \<open>\<open>FileSystem.__aexit__\<close>\<close>

text \<open>
  \<open>await self.ctx.aclose()\<close>: the exit stack leaves every context it holds, the latest
  first, and is empty afterwards. An exit that raises does not stop the others; the
  stack then raises the exception of the last exit that raised. An object whose exit
  raised has been closed all the same.
\<close>

definition exit_error :: "env \<Rightarrow> nat list \<Rightarrow> error option" where
  "exit_error e as =
     fold (\<lambda>a r. case close_error e a of Some err \<Rightarrow> Some err | None \<Rightarrow> r) as None"

definition aexit :: "env \<Rightarrow> handle \<Rightarrow> world \<Rightarrow> error option \<times> handle \<times> world" where
  "aexit e h w =
     (exit_error e (ctx h), h\<lparr>ctx := []\<rparr>, w\<lparr>heap := fold close_at (ctx h) (heap w)\<rparr>)"

subsection \<open>\<open>__aenter__\<close>\<close>

definition LocalFileSystem_aenter :: "env \<Rightarrow> handle \<Rightarrow> world \<Rightarrow> error option \<times> handle \<times> world" where
  "LocalFileSystem_aenter e h w =
     (case disk e (filepath h) of
        None \<Rightarrow> (Some (OSError ''No such file or directory''), h, w)
      | Some c \<Rightarrow>
          (case alloc w (File c 0 False) of
             (a, w') \<Rightarrow> (None, h\<lparr>ctx := a # ctx h, file' := Some a\<rparr>, w')))"

definition HttpFileSystem_aenter :: "env \<Rightarrow> handle \<Rightarrow> world \<Rightarrow> error option \<times> handle \<times> world" where
  "HttpFileSystem_aenter e h w =
     (case alloc w (AsyncClient False) of
        (a, w') \<Rightarrow> (None, h\<lparr>ctx := a # ctx h, client := Some a\<rparr>, w'))"

definition S3FileSystem_aenter :: "env \<Rightarrow> handle \<Rightarrow> world \<Rightarrow> error option \<times> handle \<times> world" where
  "S3FileSystem_aenter e h w =
     (case urlparse e (filepath h) of
        Inl err \<Rightarrow> (Some err, h, w)
      | Inr parsed \<Rightarrow>
          if \<not> aioboto3 e then (Some (ImportError ''aioboto3 is required for S3FileSystem''), h, w)
          else
            (case alloc w Session of
               (s, w1) \<Rightarrow>
                 let h1 = h\<lparr>s3_session := Some s\<rparr> in
                 (case s3_resource_error e of
                    Some err \<Rightarrow> (Some err, h1, w1)
                  | None \<Rightarrow>
                      (case alloc w1 (S3Resource s False) of
                         (r, w2) \<Rightarrow>
                           let h2 = h1\<lparr>ctx := r # ctx h1, s3_resource := Some r\<rparr> in
                           (case s3_object_error e (netloc parsed) (strip_slash (path parsed)) of
                              Some err \<Rightarrow> (Some err, h2, w2)
                            | None \<Rightarrow>
                                (None,
                                 h2\<lparr>s3_obj := Some (r, netloc parsed, strip_slash (path parsed))\<rparr>,
                                 w2))))))"

text \<open>
  \<open>AtlasS3FileSystem.__aenter__\<close> takes the session from the settings instead of making
  one; calling \<open>resource\<close> on anything but a session is an \<open>AttributeError\<close>.
\<close>

definition AtlasS3FileSystem_aenter :: "env \<Rightarrow> handle \<Rightarrow> world \<Rightarrow> error option \<times> handle \<times> world" where
  "AtlasS3FileSystem_aenter e h w =
     (case urlparse e (filepath h) of
        Inl err \<Rightarrow> (Some err, h, w)
      | Inr parsed \<Rightarrow>
          let s = AWS_S3_ASYNC_CLIENT e; h1 = h\<lparr>s3_session := Some s\<rparr> in
          if obj_at w s \<noteq> Some Session then (Some (AttributeError ''resource''), h1, w)
          else
            (case s3_resource_error e of
               Some err \<Rightarrow> (Some err, h1, w)
             | None \<Rightarrow>
                 (case alloc w (S3Resource s False) of
                    (r, w2) \<Rightarrow>
                      let h2 = h1\<lparr>ctx := r # ctx h1, s3_resource := Some r\<rparr> in
                      (case s3_object_error e (IMAGE_BUCKET_NAME e) (path parsed) of
                         Some err \<Rightarrow> (Some err, h2, w2)
                       | None \<Rightarrow>
                           (None, h2\<lparr>s3_obj := Some (r, IMAGE_BUCKET_NAME e, path parsed)\<rparr>, w2)))))"

definition GcsFileSystem_aenter :: "env \<Rightarrow> handle \<Rightarrow> world \<Rightarrow> error option \<times> handle \<times> world" where
  "GcsFileSystem_aenter e h w =
     (case urlparse e (filepath h) of
        Inl err \<Rightarrow> (Some err, h, w)
      | Inr parsed_path \<Rightarrow>
          if \<not> GcpStorage e then (Some (TypeError ''NoneType object is not callable''), h, w)
          else
            (case alloc w (Storage False) of
               (a, w') \<Rightarrow>
                 (None,
                  h\<lparr>ctx := a # ctx h, gcs_client := Some a,
                    gcs_bucket := Some (netloc parsed_path),
                    gcs_obj := Some (strip_slash (path parsed_path))\<rparr>,
                  w')))"

definition aenter :: "env \<Rightarrow> handle \<Rightarrow> world \<Rightarrow> error option \<times> handle \<times> world" where
  "aenter e h w =
     (case cls h of
        LocalFileSystem \<Rightarrow> LocalFileSystem_aenter e h w
      | HttpFileSystem \<Rightarrow> HttpFileSystem_aenter e h w
      | S3FileSystem \<Rightarrow> S3FileSystem_aenter e h w
      | AtlasS3FileSystem \<Rightarrow> AtlasS3FileSystem_aenter e h w
      | GcsFileSystem \<Rightarrow> GcsFileSystem_aenter e h w)"

subsection \<open>\<open>get\<close>\<close>

definition range_of :: "int \<Rightarrow> int \<Rightarrow> string" where
  "range_of offset len = ''bytes='' @ str_int offset @ ''-'' @ str_int (offset + len)"

text \<open>
  \<open>LocalFileSystem.get\<close>: \<open>seek(offset)\<close>, then \<open>read(length + 1)\<close>, on the buffered
  binary reader that \<open>aiofiles.open(path, "rb")\<close> wraps, with 64-bit offsets and sizes.

  \<open>seek\<close> raises \<open>ValueError\<close> on a closed file and for an offset that does not fit
  64 signed bits, and \<open>OSError\<close> for a negative offset or one beyond what the file system
  allows; otherwise it moves the position, also beyond the end of the file.

  \<open>read(size)\<close> raises \<open>OverflowError\<close> for a size that does not fit 64 signed bits or
  is too large for a byte string, \<open>ValueError\<close> for a size below \<open>-1\<close>, and
  \<open>MemoryError\<close> for a size the interpreter cannot allocate; size \<open>-1\<close> reads to the
  end; otherwise it returns at most \<open>size\<close> bytes from the position, fewer at the end of
  the file, and moves the position past them.
\<close>

definition seek :: "env \<Rightarrow> obj \<Rightarrow> int \<Rightarrow> error + obj" where
  "seek e f offset =
     (case f of
        File c p closed \<Rightarrow>
          if closed then Inl (ValueError ''seek of closed file'')
          else if offset < - (2 ^ 63) \<or> 2 ^ 63 \<le> offset
          then Inl (ValueError ''cannot fit int into an offset-sized integer'')
          else if offset < 0 \<or> max_offset e < offset then Inl (OSError ''Invalid argument'')
          else Inr (File c (nat offset) closed)
      | _ \<Rightarrow> Inl (AttributeError ''seek''))"

definition read :: "env \<Rightarrow> obj \<Rightarrow> int \<Rightarrow> error + bytes \<times> obj" where
  "read e f n =
     (case f of
        File c p closed \<Rightarrow>
          if closed then Inl (ValueError ''read of closed file'')
          else if n < - (2 ^ 63) \<or> 2 ^ 63 \<le> n
          then Inl (OverflowError ''cannot fit int into an index-sized integer'')
          else if n < - 1 then Inl (ValueError ''read length must be non-negative or -1'')
          else if 2 ^ 63 - 33 \<le> n then Inl (OverflowError ''byte string is too large'')
          else if max_alloc e < n then Inl MemoryError
          else
            let out = (if n = - 1 then drop p c else take (nat n) (drop p c))
            in Inr (out, File c (p + length out) closed)
      | _ \<Rightarrow> Inl (AttributeError ''read''))"

definition LocalFileSystem_get :: "env \<Rightarrow> handle \<Rightarrow> world \<Rightarrow> int \<Rightarrow> int \<Rightarrow> (error + bytes) \<times> world" where
  "LocalFileSystem_get e h w offset len =
     (case file' h of
        None \<Rightarrow> (Inl (AttributeError ''file''), w)
      | Some a \<Rightarrow>
          (case obj_at w a of
             None \<Rightarrow> (Inl (AttributeError ''seek''), w)
           | Some f \<Rightarrow>
               (case seek e f offset of
                  Inl err \<Rightarrow> (Inl err, w)
                | Inr f1 \<Rightarrow>
                    (case read e f1 (len + 1) of
                       Inl err \<Rightarrow> (Inl err, w\<lparr>heap := (heap w)[a := f1]\<rparr>)
                     | Inr (out, f2) \<Rightarrow> (Inr out, w\<lparr>heap := (heap w)[a := f2]\<rparr>)))))"

text \<open>
  \<open>HttpFileSystem.get\<close>. A closed \<open>httpx.AsyncClient\<close> refuses to send;
  \<open>raise_for_status\<close> raises unless the status is 2xx.
\<close>

definition is_success :: "response \<Rightarrow> bool" where
  "is_success r = (200 \<le> status_code r \<and> status_code r \<le> 299)"

definition HttpFileSystem_get :: "env \<Rightarrow> handle \<Rightarrow> world \<Rightarrow> int \<Rightarrow> int \<Rightarrow> (error + bytes) \<times> world" where
  "HttpFileSystem_get e h w offset len =
     (let range_header = [(''Range'', range_of offset len)] in
      case client h of
        None \<Rightarrow> (Inl (AttributeError ''client''), w)
      | Some a \<Rightarrow>
          (case obj_at w a of
             Some (AsyncClient closed) \<Rightarrow>
               if closed then (Inl (RuntimeError ''Cannot send a request, as the client has been closed.''), w)
               else
                 let req = HttpGet (filepath h) range_header;
                     w' = w\<lparr>sent := sent w @ [req]\<rparr>
                 in (case http_server e (sent w) req of
                       Inl err \<Rightarrow> (Inl err, w')
                     | Inr resp \<Rightarrow>
                         if is_success resp then (Inr (content resp), w')
                         else (Inl (HTTPStatusError (status_code resp)), w'))
           | _ \<Rightarrow> (Inl (AttributeError ''get''), w)))"

text \<open>\<open>S3FileSystem.get\<close>, inherited by \<open>AtlasS3FileSystem\<close>.\<close>

definition S3FileSystem_get :: "env \<Rightarrow> handle \<Rightarrow> world \<Rightarrow> int \<Rightarrow> int \<Rightarrow> (error + bytes) \<times> world" where
  "S3FileSystem_get e h w offset len =
     (let kwargs = (if truthy (request_payer h) then [(''RequestPayer'', request_payer h)] else []) in
      case s3_obj h of
        None \<Rightarrow> (Inl (AttributeError ''_obj''), w)
      | Some (r, bucket, key) \<Rightarrow>
          (case obj_at w r of
             Some (S3Resource s closed) \<Rightarrow>
               (case (if closed then s3_closed_error e else None) of
                  Some err \<Rightarrow> (Inl err, w)
                | None \<Rightarrow>
                    let req = S3GetObject bucket key ((''Range'', PyStr (range_of offset len)) # kwargs);
                        w' = w\<lparr>sent := sent w @ [req]\<rparr>
                    in (case s3_service e (sent w) req of
                          Inl err \<Rightarrow> (Inl err, w')
                        | Inr body \<Rightarrow> (Inr body, w')))
           | _ \<Rightarrow> (Inl (AttributeError ''get''), w)))"

definition GcsFileSystem_get :: "env \<Rightarrow> handle \<Rightarrow> world \<Rightarrow> int \<Rightarrow> int \<Rightarrow> (error + bytes) \<times> world" where
  "GcsFileSystem_get e h w offset len =
     (let headers = [(''Range'', range_of offset len)] in
      case gcs_client h of
        None \<Rightarrow> (Inl (AttributeError ''_client''), w)
      | Some a \<Rightarrow>
          (case gcs_bucket h of
             None \<Rightarrow> (Inl (AttributeError ''_bucket''), w)
           | Some bucket \<Rightarrow>
               (case gcs_obj h of
                  None \<Rightarrow> (Inl (AttributeError ''_obj''), w)
                | Some key \<Rightarrow>
                    (case obj_at w a of
                       Some (Storage closed) \<Rightarrow>
                         (case (if closed then gcs_closed_error e else None) of
                            Some err \<Rightarrow> (Inl err, w)
                          | None \<Rightarrow>
                              let req = GcsDownload bucket key headers;
                                  w' = w\<lparr>sent := sent w @ [req]\<rparr>
                              in (case gcs_service e (sent w) req of
                                    Inl err \<Rightarrow> (Inl err, w')
                                  | Inr body \<Rightarrow> (Inr body, w')))
                     | _ \<Rightarrow> (Inl (AttributeError ''download''), w)))))"

definition get :: "env \<Rightarrow> handle \<Rightarrow> world \<Rightarrow> int \<Rightarrow> int \<Rightarrow> (error + bytes) \<times> world" where
  "get e h w offset len =
     (case cls h of
        LocalFileSystem \<Rightarrow> LocalFileSystem_get e h w offset len
      | HttpFileSystem \<Rightarrow> HttpFileSystem_get e h w offset len
      | S3FileSystem \<Rightarrow> S3FileSystem_get e h w offset len
      | AtlasS3FileSystem \<Rightarrow> S3FileSystem_get e h w offset len
      | GcsFileSystem \<Rightarrow> GcsFileSystem_get e h w offset len)"

subsection \<open>A handle driven by its caller\<close>

text \<open>
  The caller opens, reads and closes in any order; an operation that raises leaves the
  state it reached, and the caller goes on.
\<close>

datatype op = Open | Get int int | Close

fun step :: "env \<Rightarrow> handle \<times> world \<Rightarrow> op \<Rightarrow> handle \<times> world" where
  "step e (h, w) Open = snd (aenter e h w)"
| "step e (h, w) (Get offset len) = (h, snd (get e h w offset len))"
| "step e (h, w) Close = snd (aexit e h w)"

definition run :: "env \<Rightarrow> op list \<Rightarrow> handle \<times> world \<Rightarrow> handle \<times> world" where
  "run e ops st = foldl (step e) st ops"

subsection \<open>What a handle owns\<close>

text \<open>
  The objects a handle has made live above the address \<open>n\<close> where the store ended when
  the handle was constructed. \<open>owned n h w\<close>: every context registered on the exit stack
  is such an object; every such object that is not registered holds nothing open; and the
  file, the HTTP client, the S3 resource and the storage client the handle reads through
  are such objects of the right kind.
\<close>

definition owned :: "nat \<Rightarrow> handle \<Rightarrow> world \<Rightarrow> bool" where
  "owned n h w \<longleftrightarrow>
     n \<le> length (heap w) \<and>
     (\<forall>a\<in>set (ctx h). n \<le> a \<and> a < length (heap w)) \<and>
     (\<forall>a. n \<le> a \<and> a < length (heap w) \<and> a \<notin> set (ctx h) \<longrightarrow> released (heap w ! a)) \<and>
     (\<forall>a. file' h = Some a \<longrightarrow> n \<le> a \<and> a < length (heap w) \<and> is_File (heap w ! a)) \<and>
     (\<forall>a. client h = Some a \<longrightarrow> n \<le> a \<and> a < length (heap w) \<and> is_AsyncClient (heap w ! a)) \<and>
     (\<forall>r b k. s3_obj h = Some (r, b, k) \<longrightarrow>
        n \<le> r \<and> r < length (heap w) \<and> is_S3Resource (heap w ! r)) \<and>
     (\<forall>a. gcs_client h = Some a \<longrightarrow> n \<le> a \<and> a < length (heap w) \<and> is_Storage (heap w ! a))"

subsection \<open>A reference URL parser and an example environment\<close>

text \<open>
  The examples below need a concrete parser. \<open>urlparse_ref\<close> follows
  \<open>urllib.parse.urlsplit\<close> and \<open>urlparse\<close> of CPython 3.11 on byte strings: leading
  control characters and spaces are dropped, tab, carriage return and line feed are
  removed, a scheme is the text before the first colon when it starts with a letter and
  consists of scheme characters (it is lowercased), the network location follows
  \<open>//\<close> up to the first of \<open>/ ? #\<close>, then the fragment, the query and (for the
  schemes that have them) the parameters are cut off the path. Unbalanced brackets in the
  network location are a \<open>ValueError\<close>. The validation of a bracketed host and the
  normalisation check on non-ASCII hosts are left out.
\<close>

definition ascii_upper :: string where
  "ascii_upper = ''ABCDEFGHIJKLMNOPQRSTUVWXYZ''"

definition ascii_lower :: string where
  "ascii_lower = ''abcdefghijklmnopqrstuvwxyz''"

definition scheme_chars :: string where
  "scheme_chars = ascii_lower @ ascii_upper @ ''0123456789'' @ ''+-.''"

definition lower_char :: "char \<Rightarrow> char" where
  "lower_char c = (case map_of (zip ascii_upper ascii_lower) c of None \<Rightarrow> c | Some d \<Rightarrow> d)"

definition uses_params :: "string list" where
  "uses_params = [[], ''ftp'', ''hdl'', ''prospero'', ''http'', ''imap'', ''https'', ''shttp'',
     ''rtsp'', ''rtsps'', ''rtspu'', ''sip'', ''sips'', ''mms'', ''sftp'', ''tel'']"

definition split_scheme :: "string \<Rightarrow> string \<times> string" where
  "split_scheme url =
     (let pre = takeWhile (\<lambda>c. c \<noteq> CHR '':'') url in
      if length pre < length url \<and> pre \<noteq> [] \<and> hd url \<in> set (ascii_lower @ ascii_upper)
         \<and> list_all (\<lambda>c. c \<in> set scheme_chars) pre
      then (map lower_char pre, drop (length pre + 1) url)
      else ([], url))"

definition splitnetloc :: "string \<Rightarrow> string \<times> string" where
  "splitnetloc url =
     (if take 2 url = ''//''
      then (takeWhile (\<lambda>c. c \<notin> set ''/?#'') (drop 2 url),
            dropWhile (\<lambda>c. c \<notin> set ''/?#'') (drop 2 url))
      else ([], url))"

definition splitparams :: "string \<Rightarrow> string" where
  "splitparams url =
     (if CHR ''/'' \<in> set url
      then (let k = length url - 1 - length (takeWhile (\<lambda>c. c \<noteq> CHR ''/'') (rev url));
                after = drop k url
            in if CHR '';'' \<in> set after
               then take (k + length (takeWhile (\<lambda>c. c \<noteq> CHR '';'') after)) url
               else url)
      else takeWhile (\<lambda>c. c \<noteq> CHR '';'') url)"

definition urlparse_ref :: "string \<Rightarrow> error + ParseResult" where
  "urlparse_ref url0 =
     (let url1 = filter (\<lambda>c. c \<notin> set [CHR 0x09, CHR 0x0D, CHR 0x0A])
                   (dropWhile (\<lambda>c. (of_char c :: nat) \<le> 32) url0);
          (sch, url2) = split_scheme url1;
          (nl, url3) = splitnetloc url2
      in if (CHR ''['' \<in> set nl \<and> CHR '']'' \<notin> set nl) \<or> (CHR '']'' \<in> set nl \<and> CHR ''['' \<notin> set nl)
         then Inl (ValueError ''Invalid IPv6 URL'')
         else
           let url4 = takeWhile (\<lambda>c. c \<noteq> CHR ''?'') (takeWhile (\<lambda>c. c \<noteq> CHR ''#'') url3);
               url5 = (if sch \<in> set uses_params \<and> CHR '';'' \<in> set url4 then splitparams url4 else url4)
           in Inr \<lparr>scheme = sch, netloc = nl, path = url5\<rparr>)"

text \<open>
  An environment with assertions on, both optional libraries installed, a file system
  that positions files up to 16 TiB, 4 GiB to allocate, the shared session at address 0,
  a 100-byte file on disk, services that answer every request, contexts that close
  without error, and client libraries that refuse a request on a closed client.
\<close>

definition hundred_bytes :: bytes where
  "hundred_bytes = map char_of [0 ..< (100::nat)]"

definition env0 :: env where
  "env0 =
     \<lparr>urlparse = urlparse_ref, debug = True, max_offset = 2 ^ 44, max_alloc = 2 ^ 32,
      aioboto3 = True, GcpStorage = True,
      AWS_S3_ASYNC_CLIENT = 0, IMAGE_BUCKET_NAME = ''images'',
      disk = (\<lambda>p. if p = ''/data/tiles.pmtiles'' then Some hundred_bytes else None),
      http_server = (\<lambda>hist req. Inr \<lparr>status_code = 206, content = ''body''\<rparr>),
      s3_service = (\<lambda>hist req. Inr ''body''),
      gcs_service = (\<lambda>hist req. Inr ''body''),
      s3_resource_error = None,
      s3_object_error = (\<lambda>bucket key. None),
      close_error = (\<lambda>a. None),
      s3_closed_error = Some (RuntimeError ''Session is closed''),
      gcs_closed_error = Some (RuntimeError ''Session is closed'')\<rparr>"

definition world0 :: world where
  "world0 = \<lparr>heap = [Session], sent = []\<rparr>"

section \<open>Properties\<close>

subsection \<open>The example locations, parsed\<close>

lemma parse_https:
  "urlparse env0 ''https://example.com/a.pmtiles'' =
     Inr \<lparr>scheme = ''https'', netloc = ''example.com'', path = ''/a.pmtiles''\<rparr>"
  by (simp add: env0_def) code_simp

lemma parse_s3:
  "urlparse env0 ''s3://bucket/key.ext'' =
     Inr \<lparr>scheme = ''s3'', netloc = ''bucket'', path = ''/key.ext''\<rparr>"
  by (simp add: env0_def) code_simp


lemma parse_atlas:
  "urlparse env0 ''atlas://host/key.ext'' =
     Inr \<lparr>scheme = ''atlas'', netloc = ''host'', path = ''/key.ext''\<rparr>"
  by (simp add: env0_def) code_simp

lemma parse_gs:
  "urlparse env0 ''gs://bucket/key.ext'' =
     Inr \<lparr>scheme = ''gs'', netloc = ''bucket'', path = ''/key.ext''\<rparr>"
  by (simp add: env0_def) code_simp

lemma parse_file:
  "urlparse env0 ''file:///data/tiles.pmtiles'' =
     Inr \<lparr>scheme = ''file'', netloc = [], path = ''/data/tiles.pmtiles''\<rparr>"
  by (simp add: env0_def) code_simp

lemma parse_plain:
  "urlparse env0 ''/data/tiles.pmtiles'' =
     Inr \<lparr>scheme = [], netloc = [], path = ''/data/tiles.pmtiles''\<rparr>"
  by (simp add: env0_def) code_simp

lemma parse_ftp:
  "urlparse env0 ''ftp://host/path'' =
     Inr \<lparr>scheme = ''ftp'', netloc = ''host'', path = ''/path''\<rparr>"
  by (simp add: env0_def) code_simp

subsection \<open>Selection by scheme\<close>

lemma sublist_not_supported: "sublist s (not_supported s)"
  unfolding not_supported_def
  using sublist_appendI [of s "[CHR 0x27]" "CHR 0x27 # '' is not supported''"]
  by simp

lemmas init_defs =
  HttpFileSystem_init_def S3FileSystem_init_def AtlasS3FileSystem_init_def
  GcsFileSystem_init_def LocalFileSystem_init_def S3_init_def S3_post_init_def
  Gcs_post_init_def

text \<open>
  C1, as the code has it. For every location that the parser accepts and every keyword
  set that the selected constructor accepts (none for the HTTP, cloud-bucket and Local
  classes, \<open>request_payer\<close> for the two object-store classes),
  \<open>create_from_filepath\<close> selects by the parsed scheme: \<open>http\<close> and \<open>https\<close> give a
  new HTTP handle; \<open>s3\<close> and \<open>atlas\<close> give a new generic and a new specialized
  object-store handle when \<open>aioboto3\<close> was imported; \<open>gs\<close> gives a new cloud-bucket
  handle when \<open>GcpStorage\<close> was imported; \<open>file\<close> and the empty scheme give a new Local
  handle; every other scheme is, whatever the keywords, a \<open>ValueError\<close> whose message
  contains that scheme.
\<close>

theorem create_from_filepath_by_scheme:
  assumes "urlparse e fp = Inr parsed"
  shows "(scheme parsed \<in> {''http'', ''https''} \<and> unexpected_keyword [] kws = None \<longrightarrow>
            create_from_filepath e fp kws = Inr (new_handle HttpFileSystem fp))
       \<and> (scheme parsed = ''s3'' \<and> aioboto3 e
            \<and> unexpected_keyword [''request_payer''] kws = None \<longrightarrow>
            create_from_filepath e fp kws =
              Inr ((new_handle S3FileSystem fp)\<lparr>request_payer :=
                     (case map_of kws ''request_payer'' of None \<Rightarrow> PyBool False | Some v \<Rightarrow> v)\<rparr>))
       \<and> (scheme parsed = ''atlas'' \<and> aioboto3 e
            \<and> unexpected_keyword [''request_payer''] kws = None \<longrightarrow>
            create_from_filepath e fp kws =
              Inr ((new_handle AtlasS3FileSystem fp)\<lparr>request_payer :=
                     (case map_of kws ''request_payer'' of None \<Rightarrow> PyBool False | Some v \<Rightarrow> v)\<rparr>))
       \<and> (scheme parsed = ''gs'' \<and> GcpStorage e \<and> unexpected_keyword [] kws = None \<longrightarrow>
            create_from_filepath e fp kws = Inr (new_handle GcsFileSystem fp))
       \<and> ((scheme parsed = ''file'' \<or> scheme parsed = []) \<and> unexpected_keyword [] kws = None \<longrightarrow>
            create_from_filepath e fp kws = Inr (new_handle LocalFileSystem fp))
       \<and> (scheme parsed \<notin> {''http'', ''https'', ''s3'', ''atlas'', ''gs'', ''file'', []} \<longrightarrow>
            create_from_filepath e fp kws = Inl (ValueError (not_supported (scheme parsed)))
            \<and> sublist (scheme parsed) (not_supported (scheme parsed)))"
  using assms
  by (auto simp: create_from_filepath_def init_defs sublist_not_supported)

theorem create_from_filepath_by_scheme_witness:
  "create_from_filepath env0 ''https://example.com/a.pmtiles'' [] =
     Inr (new_handle HttpFileSystem ''https://example.com/a.pmtiles'')
   \<and> create_from_filepath env0 ''s3://bucket/key.ext'' [] =
     Inr (new_handle S3FileSystem ''s3://bucket/key.ext'')
   \<and> create_from_filepath env0 ''s3://bucket/key.ext'' [(''request_payer'', PyBool True)] =
     Inr ((new_handle S3FileSystem ''s3://bucket/key.ext'')\<lparr>request_payer := PyBool True\<rparr>)
   \<and> create_from_filepath env0 ''atlas://host/key.ext'' [] =
     Inr (new_handle AtlasS3FileSystem ''atlas://host/key.ext'')
   \<and> create_from_filepath env0 ''gs://bucket/key.ext'' [] =
     Inr (new_handle GcsFileSystem ''gs://bucket/key.ext'')
   \<and> create_from_filepath env0 ''file:///data/tiles.pmtiles'' [] =
     Inr (new_handle LocalFileSystem ''file:///data/tiles.pmtiles'')
   \<and> create_from_filepath env0 ''/data/tiles.pmtiles'' [] =
     Inr (new_handle LocalFileSystem ''/data/tiles.pmtiles'')
   \<and> create_from_filepath env0 ''ftp://host/path'' [(''request_payer'', PyBool True)] =
     Inl (ValueError (CHR 0x27 # ''ftp'' @ CHR 0x27 # '' is not supported''))"
  using create_from_filepath_by_scheme [OF parse_https, of "[]"]
    create_from_filepath_by_scheme [OF parse_s3, of "[]"]
    create_from_filepath_by_scheme [OF parse_s3, of "[(''request_payer'', PyBool True)]"]
    create_from_filepath_by_scheme [OF parse_atlas, of "[]"]
    create_from_filepath_by_scheme [OF parse_gs, of "[]"]
    create_from_filepath_by_scheme [OF parse_file, of "[]"]
    create_from_filepath_by_scheme [OF parse_plain, of "[]"]
    create_from_filepath_by_scheme [OF parse_ftp, of "[(''request_payer'', PyBool True)]"]
  by (simp add: env0_def not_supported_def new_handle_def)

text \<open>
  C1 as the claim words it promises the generic object-store handle for every \<open>s3\<close>
  location. Where \<open>aioboto3\<close> could not be imported (and assertions run), the
  constructor's assertion fails and no handle is returned.
\<close>

theorem create_from_filepath_s3_counterexample:
  "urlparse (env0\<lparr>aioboto3 := False\<rparr>) ''s3://bucket/key.ext'' =
     Inr \<lparr>scheme = ''s3'', netloc = ''bucket'', path = ''/key.ext''\<rparr>
   \<and> create_from_filepath (env0\<lparr>aioboto3 := False\<rparr>) ''s3://bucket/key.ext'' [] =
     Inl (AssertionError
       (CHR 0x27 # ''aioboto3'' @ CHR 0x27 # '' must be installed to use S3 FileSystem''))"
proof -
  have d: "debug env0" by (simp add: env0_def)
  show ?thesis
    using d by (simp add: parse_s3 create_from_filepath_def init_defs)
qed

subsection \<open>Missing optional dependencies\<close>

text \<open>
  C5, as the code has it. The check is an \<open>assert\<close>. When assertions run and
  \<open>aioboto3\<close> is missing, constructing a generic or a specialized object-store handle
  fails whatever the keywords, and with acceptable keywords the error is the assertion
  whose message contains \<open>aioboto3\<close>; when assertions run and \<open>GcpStorage\<close> is missing,
  the same holds of the cloud-bucket handle with \<open>gcloud-aio-storage\<close>. No handle exists
  on which \<open>get\<close> could be called.
\<close>

theorem missing_dependency_fails_at_construction:
  "(debug e \<and> \<not> aioboto3 e \<longrightarrow>
      (\<exists>err. S3FileSystem_init e fp kws = Inl err) \<and>
      (\<exists>err. AtlasS3FileSystem_init e fp kws = Inl err) \<and>
      (unexpected_keyword [''request_payer''] kws = None \<longrightarrow>
         S3FileSystem_init e fp kws = Inl (AssertionError
           (CHR 0x27 # ''aioboto3'' @ CHR 0x27 # '' must be installed to use S3 FileSystem'')) \<and>
         AtlasS3FileSystem_init e fp kws = Inl (AssertionError
           (CHR 0x27 # ''aioboto3'' @ CHR 0x27 # '' must be installed to use S3 FileSystem'')) \<and>
         sublist ''aioboto3''
           (CHR 0x27 # ''aioboto3'' @ CHR 0x27 # '' must be installed to use S3 FileSystem'')))
   \<and> (debug e \<and> \<not> GcpStorage e \<longrightarrow>
      (\<exists>err. GcsFileSystem_init e fp kws = Inl err) \<and>
      (unexpected_keyword [] kws = None \<longrightarrow>
         GcsFileSystem_init e fp kws = Inl (AssertionError
           (CHR 0x27 # ''gcloud-aio-storage'' @ CHR 0x27 # '' must be installed to use GCS FileSystem'')) \<and>
         sublist ''gcloud-aio-storage''
           (CHR 0x27 # ''gcloud-aio-storage'' @ CHR 0x27 # '' must be installed to use GCS FileSystem'')))"
proof -
  have a: "sublist ''aioboto3''
      (CHR 0x27 # ''aioboto3'' @ CHR 0x27 # '' must be installed to use S3 FileSystem'')"
    using sublist_appendI [of "''aioboto3''" "[CHR 0x27]"
        "CHR 0x27 # '' must be installed to use S3 FileSystem''"]
    by simp
  have g: "sublist ''gcloud-aio-storage''
      (CHR 0x27 # ''gcloud-aio-storage'' @ CHR 0x27 # '' must be installed to use GCS FileSystem'')"
    using sublist_appendI [of "''gcloud-aio-storage''" "[CHR 0x27]"
        "CHR 0x27 # '' must be installed to use GCS FileSystem''"]
    by simp
  show ?thesis
    using a g by (auto simp: init_defs split: option.splits)
qed

theorem missing_dependency_fails_at_construction_witness:
  "debug (env0\<lparr>aioboto3 := False, GcpStorage := False\<rparr>)
   \<and> S3FileSystem_init (env0\<lparr>aioboto3 := False, GcpStorage := False\<rparr>) ''s3://bucket/key.ext'' [] =
     Inl (AssertionError
       (CHR 0x27 # ''aioboto3'' @ CHR 0x27 # '' must be installed to use S3 FileSystem''))
   \<and> AtlasS3FileSystem_init (env0\<lparr>aioboto3 := False, GcpStorage := False\<rparr>) ''atlas://host/key.ext'' [] =
     Inl (AssertionError
       (CHR 0x27 # ''aioboto3'' @ CHR 0x27 # '' must be installed to use S3 FileSystem''))
   \<and> GcsFileSystem_init (env0\<lparr>aioboto3 := False, GcpStorage := False\<rparr>) ''gs://bucket/key.ext'' [] =
     Inl (AssertionError
       (CHR 0x27 # ''gcloud-aio-storage'' @ CHR 0x27 # '' must be installed to use GCS FileSystem''))"
  using missing_dependency_fails_at_construction
    [of "env0\<lparr>aioboto3 := False, GcpStorage := False\<rparr>" "''s3://bucket/key.ext''" "[]"]
    missing_dependency_fails_at_construction
    [of "env0\<lparr>aioboto3 := False, GcpStorage := False\<rparr>" "''atlas://host/key.ext''" "[]"]
    missing_dependency_fails_at_construction
    [of "env0\<lparr>aioboto3 := False, GcpStorage := False\<rparr>" "''gs://bucket/key.ext''" "[]"]
  by (simp add: env0_def)

text \<open>
  C5 as the claim words it promises the failure at construction whenever the library is
  missing. Under \<open>python -O\<close> the assertion is not run: the constructor returns the
  handle, and it is \<open>__aenter__\<close> that raises.
\<close>

theorem missing_dependency_counterexample:
  "S3FileSystem_init (env0\<lparr>debug := False, aioboto3 := False\<rparr>) ''s3://bucket/key.ext'' [] =
     Inr (new_handle S3FileSystem ''s3://bucket/key.ext'')
   \<and> fst (aenter (env0\<lparr>debug := False, aioboto3 := False\<rparr>)
            (new_handle S3FileSystem ''s3://bucket/key.ext'') world0) =
     Some (ImportError ''aioboto3 is required for S3FileSystem'')"
proof -
  have p: "urlparse_ref ''s3://bucket/key.ext'' =
      Inr \<lparr>scheme = ''s3'', netloc = ''bucket'', path = ''/key.ext''\<rparr>"
    using parse_s3 by (simp add: env0_def)
  have 1: "S3FileSystem_init (env0\<lparr>debug := False, aioboto3 := False\<rparr>) ''s3://bucket/key.ext'' [] =
     Inr (new_handle S3FileSystem ''s3://bucket/key.ext'')"
    by (simp add: init_defs new_handle_def)
  have 2: "fst (aenter (env0\<lparr>debug := False, aioboto3 := False\<rparr>)
            (new_handle S3FileSystem ''s3://bucket/key.ext'') world0) =
     Some (ImportError ''aioboto3 is required for S3FileSystem'')"
    by (simp add: aenter_def S3FileSystem_aenter_def new_handle_def env0_def p)
  from 1 2 show ?thesis by simp
qed

subsection \<open>Opened example handles\<close>

lemmas aenter_defs = aenter_def LocalFileSystem_aenter_def HttpFileSystem_aenter_def
  S3FileSystem_aenter_def AtlasS3FileSystem_aenter_def GcsFileSystem_aenter_def alloc_def

lemma local_open_example:
  "aenter env0 (new_handle LocalFileSystem ''/data/tiles.pmtiles'') world0 =
     (None,
      (new_handle LocalFileSystem ''/data/tiles.pmtiles'')\<lparr>ctx := [1], file' := Some 1\<rparr>,
      \<lparr>heap = [Session, File hundred_bytes 0 False], sent = []\<rparr>)"
  by (simp add: aenter_defs new_handle_def env0_def world0_def)

lemma http_open_example:
  "aenter env0 (new_handle HttpFileSystem ''https://example.com/a.pmtiles'') world0 =
     (None,
      (new_handle HttpFileSystem ''https://example.com/a.pmtiles'')\<lparr>ctx := [1], client := Some 1\<rparr>,
      \<lparr>heap = [Session, AsyncClient False], sent = []\<rparr>)"
  by (simp add: aenter_defs new_handle_def env0_def world0_def)

lemma s3_open_example:
  "aenter env0 (new_handle S3FileSystem ''s3://bucket/key.ext'') world0 =
     (None,
      (new_handle S3FileSystem ''s3://bucket/key.ext'')
        \<lparr>ctx := [2], s3_session := Some 1, s3_resource := Some 2,
         s3_obj := Some (2, ''bucket'', ''key.ext'')\<rparr>,
      \<lparr>heap = [Session, Session, S3Resource 1 False], sent = []\<rparr>)"
proof -
  have k: "strip_slash ''/key.ext'' = ''key.ext''" by code_simp
  have p: "urlparse_ref ''s3://bucket/key.ext'' =
      Inr \<lparr>scheme = ''s3'', netloc = ''bucket'', path = ''/key.ext''\<rparr>"
    using parse_s3 by (simp add: env0_def)
  show ?thesis
    by (simp add: aenter_defs new_handle_def world0_def env0_def k p)
qed

lemma gcs_open_example:
  "aenter env0 (new_handle GcsFileSystem ''gs://bucket/key.ext'') world0 =
     (None,
      (new_handle GcsFileSystem ''gs://bucket/key.ext'')
        \<lparr>ctx := [1], gcs_client := Some 1, gcs_bucket := Some ''bucket'',
         gcs_obj := Some ''key.ext''\<rparr>,
      \<lparr>heap = [Session, Storage False], sent = []\<rparr>)"
proof -
  have k: "strip_slash ''/key.ext'' = ''key.ext''" by code_simp
  have p: "urlparse_ref ''gs://bucket/key.ext'' =
      Inr \<lparr>scheme = ''gs'', netloc = ''bucket'', path = ''/key.ext''\<rparr>"
    using parse_gs by (simp add: env0_def)
  show ?thesis
    by (simp add: aenter_defs new_handle_def world0_def env0_def k p)
qed

lemma hundred_bytes_slice: "take 5 (drop 10 hundred_bytes) = map char_of [10, 11, 12, 13, 14 :: nat]"
  by code_simp

lemma hundred_bytes_length: "length hundred_bytes = 100"
  by (simp add: hundred_bytes_def)

lemma range_of_0_9: "range_of 0 9 = ''bytes=0-9''"
  by code_simp

subsection \<open>Reading from the local disk\<close>

lemma take_drop_nth: "take n (drop k xs) = map (\<lambda>i. xs ! i) [k ..< min (k + n) (length xs)]"
  by (auto simp: list_eq_iff_nth_eq)

lemma length_take_drop_int:
  assumes "0 \<le> offset" and "0 \<le> len"
  shows "int (length (take (nat len + 1) (drop (nat offset) c))) =
     (if offset \<le> int (length c) then min (len + 1) (int (length c) - offset) else 0)"
  using assms by (auto simp: min_def)

text \<open>
  C3, as the code has it. On an open Local handle over a file of content \<open>c\<close>, for an
  offset from 0 up to what the file system allows (itself below \<open>2^63\<close>) and a length
  from 0 with \<open>length + 1\<close> within what the interpreter can allocate,
  \<open>get(offset, length)\<close> returns the bytes of \<open>c\<close> at the positions \<open>offset\<close> to
  \<open>offset + length\<close> inclusive that exist: when the offset is within the file these are
  \<open>min(length + 1, size - offset)\<close> bytes, and beyond the end of the file none. A short
  read is a result, not an error. The file position ends after the bytes read.
\<close>

theorem LocalFileSystem_get_inclusive_range:
  assumes "cls h = LocalFileSystem" and "file' h = Some a"
    and "obj_at w a = Some (File c p False)"
    and "0 \<le> offset" and "offset \<le> max_offset e" and "max_offset e < 2 ^ 63"
    and "0 \<le> len" and "len + 1 \<le> max_alloc e" and "max_alloc e < 2 ^ 63 - 33"
  shows "fst (get e h w offset len) = Inr (take (nat len + 1) (drop (nat offset) c))
       \<and> take (nat len + 1) (drop (nat offset) c) =
           map (\<lambda>i. c ! i) [nat offset ..< min (nat offset + nat len + 1) (length c)]
       \<and> int (length (take (nat len + 1) (drop (nat offset) c))) =
           (if offset \<le> int (length c) then min (len + 1) (int (length c) - offset) else 0)
       \<and> obj_at (snd (get e h w offset len)) a =
           Some (File c (nat offset + length (take (nat len + 1) (drop (nat offset) c))) False)"
proof -
  let ?out = "take (nat len + 1) (drop (nat offset) c)"
  have n: "nat (len + 1) = nat len + 1" using assms(7) by simp
  have lt: "a < length (heap w)" using assms(3) by (simp add: obj_at_def split: if_splits)
  have sk: "seek e (File c p False) offset = Inr (File c (nat offset) False)"
    using assms(4-6) by (simp add: seek_def)
  have rd: "read e (File c (nat offset) False) (len + 1) =
      Inr (?out, File c (nat offset + length ?out) False)"
    using assms(7-9) by (simp add: read_def n Let_def)
  have g: "get e h w offset len =
      (Inr ?out, w\<lparr>heap := (heap w)[a := File c (nat offset + length ?out) False]\<rparr>)"
    using assms(1-3) by (simp add: get_def LocalFileSystem_get_def sk rd)
  have f: "fst (get e h w offset len) = Inr ?out"
    by (simp add: g)
  have m: "?out = map (\<lambda>i. c ! i) [nat offset ..< min (nat offset + nat len + 1) (length c)]"
    by (simp add: take_drop_nth add.assoc)
  have l: "int (length ?out) =
      (if offset \<le> int (length c) then min (len + 1) (int (length c) - offset) else 0)"
    using assms(4) assms(7) by (rule length_take_drop_int)
  have o: "obj_at (snd (get e h w offset len)) a =
      Some (File c (nat offset + length ?out) False)"
    unfolding g using lt by (simp add: obj_at_def)
  from f m l o show ?thesis by blast
qed

theorem LocalFileSystem_get_inclusive_range_witness:
  "(case aenter env0 (new_handle LocalFileSystem ''/data/tiles.pmtiles'') world0 of
      (r, h, w) \<Rightarrow>
        r = None \<and> fst (get env0 h w 10 4) = Inr (map char_of [10, 11, 12, 13, 14 :: nat])
        \<and> fst (get env0 h w 98 4) = Inr (map char_of [98, 99 :: nat])
        \<and> fst (get env0 h w 200 4) = Inr [])"
proof -
  let ?h = "(new_handle LocalFileSystem ''/data/tiles.pmtiles'')\<lparr>ctx := [1], file' := Some 1\<rparr>"
  let ?w = "\<lparr>heap = [Session, File hundred_bytes 0 False], sent = []\<rparr>"
  have c: "cls ?h = LocalFileSystem" and f: "file' ?h = Some 1"
    by (simp_all add: new_handle_def)
  have o: "obj_at ?w 1 = Some (File hundred_bytes 0 False)"
    by (simp add: obj_at_def)
  have mo: "max_offset env0 < 2 ^ 63" and ma: "max_alloc env0 < 2 ^ 63 - 33"
    and l5: "(4::int) + 1 \<le> max_alloc env0"
    and o10: "(10::int) \<le> max_offset env0" and o98: "(98::int) \<le> max_offset env0"
    and o200: "(200::int) \<le> max_offset env0"
    by (simp_all add: env0_def)
  have z: "(0::int) \<le> 10" "(0::int) \<le> 98" "(0::int) \<le> 200" "(0::int) \<le> 4" by simp_all
  have t: "take 2 (drop 98 hundred_bytes) = map char_of [98, 99 :: nat]"
    by code_simp
  have t5: "take 5 (drop 98 hundred_bytes) = take 2 (drop 98 hundred_bytes)"
    by (simp add: hundred_bytes_length)
  have t200: "take 5 (drop 200 hundred_bytes) = []"
    by (simp add: hundred_bytes_length)
  show ?thesis
    using LocalFileSystem_get_inclusive_range [OF c f o z(1) o10 mo z(4) l5 ma]
      LocalFileSystem_get_inclusive_range [OF c f o z(2) o98 mo z(4) l5 ma]
      LocalFileSystem_get_inclusive_range [OF c f o z(3) o200 mo z(4) l5 ma]
    by (simp add: local_open_example hundred_bytes_slice hundred_bytes_length t t5 t200)
qed

text \<open>
  C3 as the claim words it covers every non-negative offset. At offset \<open>2^63\<close>, which
  an unsigned 64-bit offset field can carry, \<open>seek\<close> raises and \<open>get\<close> returns no
  bytes.
\<close>

theorem LocalFileSystem_get_counterexample:
  "fst (get env0
         ((new_handle LocalFileSystem ''/data/tiles.pmtiles'')\<lparr>ctx := [1], file' := Some 1\<rparr>)
         \<lparr>heap = [Session, File hundred_bytes 0 False], sent = []\<rparr>
         9223372036854775808 4) =
     Inl (ValueError ''cannot fit int into an offset-sized integer'')"
  by (simp add: get_def LocalFileSystem_get_def seek_def obj_at_def new_handle_def)

subsection \<open>Reading over HTTP\<close>

text \<open>
  C4. On an open HTTP handle whose request the server answers, \<open>get\<close> raises
  \<open>HTTPStatusError\<close> when the status is not a success, and returns the body of the
  response when it is.
\<close>

theorem HttpFileSystem_get_status:
  assumes "cls h = HttpFileSystem" and "client h = Some a"
    and "obj_at w a = Some (AsyncClient False)"
    and "http_server e (sent w) (HttpGet (filepath h) [(''Range'', range_of offset len)]) = Inr resp"
  shows "(\<not> is_success resp \<longrightarrow> fst (get e h w offset len) = Inl (HTTPStatusError (status_code resp)))
       \<and> (is_success resp \<longrightarrow> fst (get e h w offset len) = Inr (content resp))"
  using assms by (simp add: get_def HttpFileSystem_get_def Let_def)

theorem HttpFileSystem_get_status_witness:
  "(case aenter env0 (new_handle HttpFileSystem ''https://example.com/a.pmtiles'') world0 of
      (r, h, w) \<Rightarrow>
        r = None
        \<and> fst (get env0 h w 0 9) = Inr ''body''
        \<and> fst (get (env0\<lparr>http_server := \<lambda>hist req. Inr \<lparr>status_code = 404, content = ''Not Found''\<rparr>\<rparr>)
                 h w 0 9) = Inl (HTTPStatusError 404))"
proof -
  let ?h = "(new_handle HttpFileSystem ''https://example.com/a.pmtiles'')\<lparr>ctx := [1], client := Some 1\<rparr>"
  let ?w = "\<lparr>heap = [Session, AsyncClient False], sent = []\<rparr>"
  let ?e = "env0\<lparr>http_server := \<lambda>hist req. Inr \<lparr>status_code = 404, content = ''Not Found''\<rparr>\<rparr>"
  have c: "cls ?h = HttpFileSystem" and f: "client ?h = Some 1"
    by (simp_all add: new_handle_def)
  have o: "obj_at ?w 1 = Some (AsyncClient False)"
    by (simp add: obj_at_def)
  have s: "http_server env0 (sent ?w) (HttpGet (filepath ?h) [(''Range'', range_of 0 9)]) =
      Inr \<lparr>status_code = 206, content = ''body''\<rparr>"
    by (simp add: env0_def)
  have s': "http_server ?e (sent ?w) (HttpGet (filepath ?h) [(''Range'', range_of 0 9)]) =
      Inr \<lparr>status_code = 404, content = ''Not Found''\<rparr>"
    by (simp add: env0_def)
  show ?thesis
    using HttpFileSystem_get_status [OF c f o s] HttpFileSystem_get_status [OF c f o s']
    by (simp add: http_open_example is_success_def)
qed

subsection \<open>The range that is sent\<close>

text \<open>
  C2. On an open HTTP, object-store or cloud-bucket handle, \<open>get(offset, length)\<close> sends
  exactly one request, and its range is \<open>bytes=\<close>, the decimal text of \<open>offset\<close>, a
  hyphen, and the decimal text of \<open>offset + length\<close>.
\<close>

theorem range_string_sent:
  "(cls h = HttpFileSystem \<and> client h = Some a \<and> obj_at w a = Some (AsyncClient False) \<longrightarrow>
      sent (snd (get e h w offset len)) =
        sent w @ [HttpGet (filepath h)
                    [(''Range'', ''bytes='' @ str_int offset @ ''-'' @ str_int (offset + len))]])
   \<and> (cls h \<in> {S3FileSystem, AtlasS3FileSystem} \<and> s3_obj h = Some (r, bucket, key)
        \<and> obj_at w r = Some (S3Resource s False) \<longrightarrow>
      sent (snd (get e h w offset len)) =
        sent w @ [S3GetObject bucket key
                    ((''Range'', PyStr (''bytes='' @ str_int offset @ ''-'' @ str_int (offset + len)))
                     # (if truthy (request_payer h) then [(''RequestPayer'', request_payer h)] else []))])
   \<and> (cls h = GcsFileSystem \<and> gcs_client h = Some g \<and> gcs_bucket h = Some bucket
        \<and> gcs_obj h = Some key \<and> obj_at w g = Some (Storage False) \<longrightarrow>
      sent (snd (get e h w offset len)) =
        sent w @ [GcsDownload bucket key
                    [(''Range'', ''bytes='' @ str_int offset @ ''-'' @ str_int (offset + len))]])"
  by (auto simp: get_def HttpFileSystem_get_def S3FileSystem_get_def GcsFileSystem_get_def
      range_of_def Let_def split: sum.splits)

theorem range_string_sent_witness:
  "(case aenter env0 (new_handle HttpFileSystem ''https://example.com/a.pmtiles'') world0 of
      (r, h, w) \<Rightarrow> sent (snd (get env0 h w 0 9)) =
         [HttpGet ''https://example.com/a.pmtiles'' [(''Range'', ''bytes=0-9'')]])
   \<and> (case aenter env0 (new_handle S3FileSystem ''s3://bucket/key.ext'') world0 of
      (r, h, w) \<Rightarrow> sent (snd (get env0 h w 0 9)) =
         [S3GetObject ''bucket'' ''key.ext'' [(''Range'', PyStr ''bytes=0-9'')]])
   \<and> (case aenter env0 (new_handle GcsFileSystem ''gs://bucket/key.ext'') world0 of
      (r, h, w) \<Rightarrow> sent (snd (get env0 h w 0 9)) =
         [GcsDownload ''bucket'' ''key.ext'' [(''Range'', ''bytes=0-9'')]])"
proof -
  have r: "''bytes='' @ str_int 0 @ ''-'' @ str_int (0 + 9) = ''bytes=0-9''"
    using range_of_0_9 by (simp add: range_of_def)
  let ?hh = "(new_handle HttpFileSystem ''https://example.com/a.pmtiles'')\<lparr>ctx := [1], client := Some 1\<rparr>"
  let ?wh = "\<lparr>heap = [Session, AsyncClient False], sent = []\<rparr>"
  let ?hs = "(new_handle S3FileSystem ''s3://bucket/key.ext'')
        \<lparr>ctx := [2], s3_session := Some 1, s3_resource := Some 2,
         s3_obj := Some (2, ''bucket'', ''key.ext'')\<rparr>"
  let ?ws = "\<lparr>heap = [Session, Session, S3Resource 1 False], sent = []\<rparr>"
  let ?hg = "(new_handle GcsFileSystem ''gs://bucket/key.ext'')
        \<lparr>ctx := [1], gcs_client := Some 1, gcs_bucket := Some ''bucket'',
         gcs_obj := Some ''key.ext''\<rparr>"
  let ?wg = "\<lparr>heap = [Session, Storage False], sent = []\<rparr>"
  have 1: "sent (snd (get env0 ?hh ?wh 0 9)) =
         [HttpGet ''https://example.com/a.pmtiles'' [(''Range'', ''bytes=0-9'')]]"
    using range_string_sent [where h = ?hh and a = 1 and w = ?wh and e = env0 and offset = 0 and len = 9] r
    by (simp add: new_handle_def obj_at_def)
  have 2: "sent (snd (get env0 ?hs ?ws 0 9)) =
         [S3GetObject ''bucket'' ''key.ext'' [(''Range'', PyStr ''bytes=0-9'')]]"
    using range_string_sent [where h = ?hs and w = ?ws and r = 2 and bucket = "''bucket''"
        and key = "''key.ext''" and s = 1 and e = env0 and offset = 0 and len = 9] r
    by (simp add: new_handle_def obj_at_def)
  have 3: "sent (snd (get env0 ?hg ?wg 0 9)) =
         [GcsDownload ''bucket'' ''key.ext'' [(''Range'', ''bytes=0-9'')]]"
    using range_string_sent [where h = ?hg and w = ?wg and g = 1 and bucket = "''bucket''"
        and key = "''key.ext''" and e = env0 and offset = 0 and len = 9] r
    by (simp add: new_handle_def obj_at_def)
  show ?thesis
    using 1 2 3 by (simp add: http_open_example s3_open_example gcs_open_example)
qed

subsection \<open>Closing contexts in the store\<close>

lemma close_obj_idem [simp]: "close_obj (close_obj ob) = close_obj ob"
  by (cases ob) simp_all

lemma released_close_obj [simp]: "released (close_obj ob)"
  by (cases ob) simp_all

lemma released_close_obj_eq: "released ob \<Longrightarrow> close_obj ob = ob"
  by (cases ob) simp_all

lemma kind_close_obj [simp]:
  "is_File (close_obj ob) = is_File ob"
  "is_AsyncClient (close_obj ob) = is_AsyncClient ob"
  "is_S3Resource (close_obj ob) = is_S3Resource ob"
  "is_Storage (close_obj ob) = is_Storage ob"
  by (cases ob; simp)+

lemma length_close_at [simp]: "length (close_at a hp) = length hp"
  by (simp add: close_at_def)

lemma length_fold_close_at [simp]: "length (fold close_at xs hp) = length hp"
  by (induction xs arbitrary: hp) simp_all

lemma nth_close_at:
  "a < length hp \<Longrightarrow> close_at x hp ! a = (if a = x then close_obj (hp ! a) else hp ! a)"
  by (simp add: close_at_def)

lemma nth_fold_close_at:
  "a < length hp \<Longrightarrow>
     fold close_at xs hp ! a = (if a \<in> set xs then close_obj (hp ! a) else hp ! a)"
proof (induction xs arbitrary: hp)
  case Nil
  then show ?case by simp
next
  case (Cons x xs)
  have "a < length (close_at x hp)" using Cons.prems by simp
  then have "fold close_at xs (close_at x hp) ! a =
      (if a \<in> set xs then close_obj (close_at x hp ! a) else close_at x hp ! a)"
    by (rule Cons.IH)
  then show ?case using Cons.prems by (simp add: nth_close_at)
qed

lemma take_fold_close_at:
  assumes "\<forall>a\<in>set xs. n \<le> a"
  shows "take n (fold close_at xs hp) = take n hp"
proof (rule nth_equalityI)
  show "length (take n (fold close_at xs hp)) = length (take n hp)" by simp
next
  fix i
  assume "i < length (take n (fold close_at xs hp))"
  then have i: "i < n" "i < length hp" by simp_all
  then have "i \<notin> set xs" using assms by auto
  then show "take n (fold close_at xs hp) ! i = take n hp ! i"
    using i by (simp add: nth_fold_close_at)
qed

lemma owned_aexit:
  assumes "owned n h w" and "aexit e h w = (r, h', w')"
  shows "owned n h' w' \<and> take n (heap w') = take n (heap w) \<and> ctx h' = []
       \<and> (\<forall>a. n \<le> a \<and> a < length (heap w') \<longrightarrow> released (heap w' ! a))"
proof -
  have h': "h' = h\<lparr>ctx := []\<rparr>" and w': "w' = w\<lparr>heap := fold close_at (ctx h) (heap w)\<rparr>"
    using assms(2) by (auto simp: aexit_def)
  have c: "\<forall>a\<in>set (ctx h). n \<le> a" using assms(1) by (simp add: owned_def)
  have t: "take n (heap w') = take n (heap w)"
    unfolding w' using take_fold_close_at [OF c] by simp
  have rel: "\<And>a. a < length (heap w) \<Longrightarrow> n \<le> a \<Longrightarrow> released (heap w' ! a)"
  proof -
    fix a assume a: "a < length (heap w)" "n \<le> a"
    show "released (heap w' ! a)"
    proof (cases "a \<in> set (ctx h)")
      case True
      then show ?thesis unfolding w' using a by (simp add: nth_fold_close_at)
    next
      case False
      then have "released (heap w ! a)" using assms(1) a by (simp add: owned_def)
      then show ?thesis unfolding w' using a False by (simp add: nth_fold_close_at)
    qed
  qed
  have kind: "\<And>a. a < length (heap w) \<Longrightarrow>
      is_File (heap w' ! a) = is_File (heap w ! a) \<and>
      is_AsyncClient (heap w' ! a) = is_AsyncClient (heap w ! a) \<and>
      is_S3Resource (heap w' ! a) = is_S3Resource (heap w ! a) \<and>
      is_Storage (heap w' ! a) = is_Storage (heap w ! a)"
    unfolding w' by (simp add: nth_fold_close_at)
  have len: "length (heap w') = length (heap w)" unfolding w' by simp
  have "owned n h' w'"
    using assms(1) rel kind len unfolding owned_def h' by simp
  with t h' rel len show ?thesis by simp
qed


lemma owned_sent [simp]: "owned n h (w\<lparr>sent := x\<rparr>) = owned n h w"
  by (simp add: owned_def)

lemma owned_update:
  assumes "owned n h w" and "a < length (heap w)"
    and "released ob = released (heap w ! a)"
    and "is_File ob = is_File (heap w ! a)"
    and "is_AsyncClient ob = is_AsyncClient (heap w ! a)"
    and "is_S3Resource ob = is_S3Resource (heap w ! a)"
    and "is_Storage ob = is_Storage (heap w ! a)"
  shows "owned n h (w\<lparr>heap := (heap w)[a := ob]\<rparr>)"
  using assms unfolding owned_def by (simp add: nth_list_update)

lemma LocalFileSystem_get_heap:
  "heap (snd (LocalFileSystem_get e h w offset len)) = heap w \<or>
   (\<exists>a c p q b. file' h = Some a \<and> a < length (heap w) \<and> heap w ! a = File c p b \<and>
      snd (LocalFileSystem_get e h w offset len) = w\<lparr>heap := (heap w)[a := File c q b]\<rparr>)"
  by (auto simp: LocalFileSystem_get_def seek_def read_def obj_at_def Let_def
      split: option.splits obj.splits sum.splits if_splits)

lemma HttpFileSystem_get_heap: "heap (snd (HttpFileSystem_get e h w offset len)) = heap w"
  by (auto simp: HttpFileSystem_get_def Let_def split: option.splits obj.splits sum.splits)

lemma S3FileSystem_get_heap: "heap (snd (S3FileSystem_get e h w offset len)) = heap w"
  by (auto simp: S3FileSystem_get_def Let_def
      split: option.splits obj.splits sum.splits if_splits)

lemma GcsFileSystem_get_heap: "heap (snd (GcsFileSystem_get e h w offset len)) = heap w"
  by (auto simp: GcsFileSystem_get_def Let_def
      split: option.splits obj.splits sum.splits if_splits)

lemma owned_heap_eq: "owned n h w \<Longrightarrow> heap w' = heap w \<Longrightarrow> owned n h w'"
  by (simp add: owned_def)

lemma owned_get:
  assumes "owned n h w"
  shows "owned n h (snd (get e h w offset len))
       \<and> take n (heap (snd (get e h w offset len))) = take n (heap w)"
proof -
  have same: "heap (snd (get e h w offset len)) = heap w \<Longrightarrow> ?thesis"
  proof -
    assume eq: "heap (snd (get e h w offset len)) = heap w"
    have "owned n h (snd (get e h w offset len))"
      using assms eq by (rule owned_heap_eq)
    then show ?thesis by (simp only: eq simp_thms)
  qed
  show ?thesis
  proof (cases "cls h")
    case LocalFileSystem
    then have g: "get e h w offset len = LocalFileSystem_get e h w offset len"
      by (simp add: get_def)
    from LocalFileSystem_get_heap [of e h w offset len] show ?thesis
    proof
      assume "heap (snd (LocalFileSystem_get e h w offset len)) = heap w"
      then have "heap (snd (get e h w offset len)) = heap w" by (simp only: g)
      then show ?thesis by (rule same)
    next
      assume "\<exists>a c p q b. file' h = Some a \<and> a < length (heap w) \<and> heap w ! a = File c p b \<and>
        snd (LocalFileSystem_get e h w offset len) = w\<lparr>heap := (heap w)[a := File c q b]\<rparr>"
      then obtain a c p q b where a: "file' h = Some a" "a < length (heap w)"
        "heap w ! a = File c p b"
        and s: "snd (LocalFileSystem_get e h w offset len) = w\<lparr>heap := (heap w)[a := File c q b]\<rparr>"
        by blast
      have na: "n \<le> a" using assms a(1) by (simp add: owned_def)
      have o: "owned n h (w\<lparr>heap := (heap w)[a := File c q b]\<rparr>)"
        using assms a(2) by (rule owned_update) (simp_all add: a(3))
      have t: "take n (heap (w\<lparr>heap := (heap w)[a := File c q b]\<rparr>)) = take n (heap w)"
        using na by simp
      show ?thesis unfolding g s using o t by blast
    qed
  next
    case HttpFileSystem
    then have "heap (snd (get e h w offset len)) = heap w"
      by (simp add: get_def HttpFileSystem_get_heap)
    then show ?thesis by (rule same)
  next
    case S3FileSystem
    then have "heap (snd (get e h w offset len)) = heap w"
      by (simp add: get_def S3FileSystem_get_heap)
    then show ?thesis by (rule same)
  next
    case AtlasS3FileSystem
    then have "heap (snd (get e h w offset len)) = heap w"
      by (simp add: get_def S3FileSystem_get_heap)
    then show ?thesis by (rule same)
  next
    case GcsFileSystem
    then have "heap (snd (get e h w offset len)) = heap w"
      by (simp add: get_def GcsFileSystem_get_heap)
    then show ?thesis by (rule same)
  qed
qed

subsection \<open>Opening keeps what the handle owns\<close>

lemma owned_LocalFileSystem_aenter:
  assumes "owned n h w" and "LocalFileSystem_aenter e h w = (r, h', w')"
  shows "owned n h' w' \<and> take n (heap w') = take n (heap w)"
  using assms
  by (auto simp: LocalFileSystem_aenter_def alloc_def owned_def nth_append less_Suc_eq
      split: option.splits)

lemma owned_HttpFileSystem_aenter:
  assumes "owned n h w" and "HttpFileSystem_aenter e h w = (r, h', w')"
  shows "owned n h' w' \<and> take n (heap w') = take n (heap w)"
  using assms
  by (auto simp: HttpFileSystem_aenter_def alloc_def owned_def nth_append less_Suc_eq)

lemma owned_GcsFileSystem_aenter:
  assumes "owned n h w" and "GcsFileSystem_aenter e h w = (r, h', w')"
  shows "owned n h' w' \<and> take n (heap w') = take n (heap w)"
  using assms
  by (auto simp: GcsFileSystem_aenter_def alloc_def owned_def nth_append less_Suc_eq
      split: sum.splits if_splits)


lemma owned_alloc_released:
  assumes "owned n h w" and "released ob"
  shows "owned n h (w\<lparr>heap := heap w @ [ob]\<rparr>)"
  using assms unfolding owned_def by (auto simp: nth_append less_Suc_eq)

lemma owned_alloc_ctx:
  assumes "owned n h w"
  shows "owned n (h\<lparr>ctx := length (heap w) # ctx h\<rparr>) (w\<lparr>heap := heap w @ [ob]\<rparr>)"
  using assms unfolding owned_def by (auto simp: nth_append less_Suc_eq)

lemma owned_other_fields [simp]:
  "owned n (h\<lparr>s3_session := x\<rparr>) w = owned n h w"
  "owned n (h\<lparr>s3_resource := y\<rparr>) w = owned n h w"
  "owned n (h\<lparr>gcs_bucket := z\<rparr>) w = owned n h w"
  "owned n (h\<lparr>gcs_obj := z\<rparr>) w = owned n h w"
  by (simp_all add: owned_def)

lemma owned_s3_obj:
  assumes "owned n h w" and "n \<le> r" and "r < length (heap w)" and "is_S3Resource (heap w ! r)"
  shows "owned n (h\<lparr>s3_obj := Some (r, b, k)\<rparr>) w"
  using assms unfolding owned_def by simp

lemma take_alloc: "n \<le> length (heap w) \<Longrightarrow> take n (heap (w\<lparr>heap := heap w @ [ob]\<rparr>)) = take n (heap w)"
  by simp

lemma owned_le: "owned n h w \<Longrightarrow> n \<le> length (heap w)"
  by (simp add: owned_def)

lemma owned_S3FileSystem_aenter:
  assumes "owned n h w" and "S3FileSystem_aenter e h w = (r, h', w')"
  shows "owned n h' w' \<and> take n (heap w') = take n (heap w)"
proof (cases "urlparse e (filepath h)")
  case (Inl err)
  then have "h' = h" and "w' = w"
    using assms(2) by (simp_all add: S3FileSystem_aenter_def)
  then show ?thesis using assms(1) by simp
next
  case (Inr parsed)
  show ?thesis
  proof (cases "aioboto3 e")
    case False
    then have "h' = h" and "w' = w"
      using assms(2) Inr by (simp_all add: S3FileSystem_aenter_def)
    then show ?thesis using assms(1) by simp
  next
    case True
    let ?s = "length (heap w)"
    let ?w1 = "w\<lparr>heap := heap w @ [Session]\<rparr>"
    let ?h1 = "h\<lparr>s3_session := Some ?s\<rparr>"
    have n: "n \<le> length (heap w)" using assms(1) by (rule owned_le)
    have o1: "owned n ?h1 ?w1"
      using owned_alloc_released [OF assms(1), of Session] by simp
    have t1: "take n (heap ?w1) = take n (heap w)" using n by simp
    show ?thesis
    proof (cases "s3_resource_error e")
      case (Some err)
      then have "h' = ?h1" and "w' = ?w1"
        using assms(2) Inr True by (simp_all add: S3FileSystem_aenter_def alloc_def Let_def)
      then show ?thesis using o1 t1 by simp
    next
      case None
      let ?r = "Suc (length (heap w))"
      let ?w2 = "w\<lparr>heap := heap w @ [Session, S3Resource ?s False]\<rparr>"
      let ?h2 = "h\<lparr>s3_session := Some ?s, ctx := ?r # ctx h, s3_resource := Some ?r\<rparr>"
      have o2: "owned n ?h2 ?w2"
        using owned_alloc_ctx [OF o1, of "S3Resource ?s False"] by simp
      have t2: "take n (heap ?w2) = take n (heap w)" using n by simp
      show ?thesis
      proof (cases "s3_object_error e (netloc parsed) (strip_slash (path parsed))")
        case (Some err)
        then have "h' = ?h2" and "w' = ?w2"
          using assms(2) Inr True None
          by (simp_all add: S3FileSystem_aenter_def alloc_def Let_def)
        then show ?thesis using o2 t2 by simp
      next
        case None': None
        have r2: "n \<le> ?r" "?r < length (heap ?w2)" "is_S3Resource (heap ?w2 ! ?r)"
          using n by (simp_all add: nth_append)
        have o3: "owned n (?h2\<lparr>s3_obj := Some (?r, netloc parsed, strip_slash (path parsed))\<rparr>) ?w2"
          using o2 r2 by (rule owned_s3_obj)
        have "h' = ?h2\<lparr>s3_obj := Some (?r, netloc parsed, strip_slash (path parsed))\<rparr>"
          and "w' = ?w2"
          using assms(2) Inr True None None'
          by (simp_all add: S3FileSystem_aenter_def alloc_def Let_def)
        then show ?thesis using o3 t2 by simp
      qed
    qed
  qed
qed

lemma owned_AtlasS3FileSystem_aenter:
  assumes "owned n h w" and "AtlasS3FileSystem_aenter e h w = (r, h', w')"
  shows "owned n h' w' \<and> take n (heap w') = take n (heap w)"
proof (cases "urlparse e (filepath h)")
  case (Inl err)
  then have "h' = h" and "w' = w"
    using assms(2) by (simp_all add: AtlasS3FileSystem_aenter_def)
  then show ?thesis using assms(1) by simp
next
  case (Inr parsed)
  let ?s = "AWS_S3_ASYNC_CLIENT e"
  let ?h1 = "h\<lparr>s3_session := Some ?s\<rparr>"
  have n: "n \<le> length (heap w)" using assms(1) by (rule owned_le)
  have o1: "owned n ?h1 w" using assms(1) by simp
  show ?thesis
  proof (cases "obj_at w ?s = Some Session \<and> s3_resource_error e = None")
    case False
    then have "h' = ?h1" and "w' = w"
      using assms(2) Inr
      by (auto simp: AtlasS3FileSystem_aenter_def Let_def split: if_splits option.splits)
    then show ?thesis using o1 by simp
  next
    case True
    let ?r = "length (heap w)"
    let ?w2 = "w\<lparr>heap := heap w @ [S3Resource ?s False]\<rparr>"
    let ?h2 = "h\<lparr>s3_session := Some ?s, ctx := ?r # ctx h, s3_resource := Some ?r\<rparr>"
    have o2: "owned n ?h2 ?w2"
      using owned_alloc_ctx [OF o1, of "S3Resource ?s False"] by simp
    have t2: "take n (heap ?w2) = take n (heap w)" using n by simp
    show ?thesis
    proof (cases "s3_object_error e (IMAGE_BUCKET_NAME e) (path parsed)")
      case (Some err)
      then have "h' = ?h2" and "w' = ?w2"
        using assms(2) Inr True
        by (simp_all add: AtlasS3FileSystem_aenter_def alloc_def Let_def)
      then show ?thesis using o2 t2 by simp
    next
      case None
      have r2: "n \<le> ?r" "?r < length (heap ?w2)" "is_S3Resource (heap ?w2 ! ?r)"
        using n by (simp_all add: nth_append)
      have o3: "owned n (?h2\<lparr>s3_obj := Some (?r, IMAGE_BUCKET_NAME e, path parsed)\<rparr>) ?w2"
        using o2 r2 by (rule owned_s3_obj)
      have "h' = ?h2\<lparr>s3_obj := Some (?r, IMAGE_BUCKET_NAME e, path parsed)\<rparr>"
        and "w' = ?w2"
        using assms(2) Inr True None
        by (simp_all add: AtlasS3FileSystem_aenter_def alloc_def Let_def)
      then show ?thesis using o3 t2 by simp
    qed
  qed
qed

lemma owned_aenter:
  assumes "owned n h w" and "aenter e h w = (r, h', w')"
  shows "owned n h' w' \<and> take n (heap w') = take n (heap w)"
proof (cases "cls h")
  case LocalFileSystem
  then have "LocalFileSystem_aenter e h w = (r, h', w')"
    using assms(2) by (simp add: aenter_def)
  with assms(1) show ?thesis by (rule owned_LocalFileSystem_aenter)
next
  case HttpFileSystem
  then have "HttpFileSystem_aenter e h w = (r, h', w')"
    using assms(2) by (simp add: aenter_def)
  with assms(1) show ?thesis by (rule owned_HttpFileSystem_aenter)
next
  case S3FileSystem
  then have "S3FileSystem_aenter e h w = (r, h', w')"
    using assms(2) by (simp add: aenter_def)
  with assms(1) show ?thesis by (rule owned_S3FileSystem_aenter)
next
  case AtlasS3FileSystem
  then have "AtlasS3FileSystem_aenter e h w = (r, h', w')"
    using assms(2) by (simp add: aenter_def)
  with assms(1) show ?thesis by (rule owned_AtlasS3FileSystem_aenter)
next
  case GcsFileSystem
  then have "GcsFileSystem_aenter e h w = (r, h', w')"
    using assms(2) by (simp add: aenter_def)
  with assms(1) show ?thesis by (rule owned_GcsFileSystem_aenter)
qed

lemma owned_step:
  assumes "owned n h w" and "step e (h, w) x = (h', w')"
  shows "owned n h' w' \<and> take n (heap w') = take n (heap w)"
proof (cases x)
  case Open
  obtain r where "aenter e h w = (r, h', w')"
    using assms(2) Open by (cases "aenter e h w") simp
  with assms(1) show ?thesis by (rule owned_aenter)
next
  case (Get offset len)
  then have "h' = h" and "w' = snd (get e h w offset len)"
    using assms(2) by auto
  then show ?thesis using owned_get [OF assms(1)] by simp
next
  case Close
  obtain r where "aexit e h w = (r, h', w')"
    using assms(2) Close by (cases "aexit e h w") simp
  with assms(1) show ?thesis using owned_aexit by blast
qed

lemma owned_run:
  assumes "owned n h w" and "run e ops (h, w) = (h', w')"
  shows "owned n h' w' \<and> take n (heap w') = take n (heap w)"
  using assms
proof (induction ops arbitrary: h w)
  case Nil
  then show ?case by (simp add: run_def)
next
  case (Cons x ops)
  obtain h1 w1 where s: "step e (h, w) x = (h1, w1)" by (cases "step e (h, w) x")
  have o1: "owned n h1 w1" and t1: "take n (heap w1) = take n (heap w)"
    using owned_step [OF Cons.prems(1) s] by simp_all
  have "run e ops (h1, w1) = (h', w')"
    using Cons.prems(2) s by (simp add: run_def)
  with o1 have "owned n h' w' \<and> take n (heap w') = take n (heap w1)"
    by (rule Cons.IH)
  with t1 show ?case by simp
qed

lemma owned_new:
  "owned (length (heap w)) ((new_handle c fp)\<lparr>request_payer := rp\<rparr>) w"
  by (auto simp: owned_def new_handle_def)

lemma run_snoc: "run e (ops @ [x]) st = step e (run e ops st) x"
  by (simp add: run_def)

subsection \<open>The class of a handle, the error of the exit stack, reads on a closed handle\<close>

lemma cls_aenter: "aenter e h w = (r, h', w') \<Longrightarrow> cls h' = cls h"
  by (cases "cls h")
     (auto simp: aenter_defs Let_def split: option.splits sum.splits if_splits)

lemma cls_aexit: "aexit e h w = (r, h', w') \<Longrightarrow> cls h' = cls h"
  by (auto simp: aexit_def)

lemma cls_step: "step e (h, w) x = (h', w') \<Longrightarrow> cls h' = cls h"
proof (cases x)
  case Open
  assume "step e (h, w) x = (h', w')"
  then obtain r where "aenter e h w = (r, h', w')"
    using Open by (cases "aenter e h w") simp
  then show ?thesis by (rule cls_aenter)
next
  case (Get offset len)
  assume "step e (h, w) x = (h', w')"
  then show ?thesis using Get by auto
next
  case Close
  assume "step e (h, w) x = (h', w')"
  then obtain r where "aexit e h w = (r, h', w')"
    using Close by (cases "aexit e h w") simp
  then show ?thesis by (rule cls_aexit)
qed

lemma cls_run: "run e ops (h, w) = (h', w') \<Longrightarrow> cls h' = cls h"
proof (induction ops arbitrary: h w)
  case Nil
  then show ?case by (simp add: run_def)
next
  case (Cons x ops)
  obtain h1 w1 where s: "step e (h, w) x = (h1, w1)" by (cases "step e (h, w) x")
  have "run e ops (h1, w1) = (h', w')"
    using Cons.prems s by (simp add: run_def)
  then have "cls h' = cls h1" by (rule Cons.IH)
  then show ?case using cls_step [OF s] by simp
qed

lemma exit_error_fold:
  "fold (\<lambda>a r. case close_error e a of Some err \<Rightarrow> Some err | None \<Rightarrow> r) as r0 = r0
   \<or> (\<exists>a\<in>set as. close_error e a =
         fold (\<lambda>a r. case close_error e a of Some err \<Rightarrow> Some err | None \<Rightarrow> r) as r0)"
proof (induction as arbitrary: r0)
  case Nil
  then show ?case by simp
next
  case (Cons x as)
  let ?f = "\<lambda>a r. case close_error e a of Some err \<Rightarrow> Some err | None \<Rightarrow> r"
  show ?case
  proof (cases "close_error e x")
    case None
    then show ?thesis using Cons.IH [of r0] by auto
  next
    case (Some err)
    then show ?thesis using Cons.IH [of "Some err"] by auto
  qed
qed

lemma exit_error_cases:
  "exit_error e as = None \<or> (\<exists>a\<in>set as. close_error e a = exit_error e as)"
  unfolding exit_error_def by (rule exit_error_fold)

lemma exit_error_None:
  assumes "\<forall>a\<in>set as. close_error e a = None"
  shows "exit_error e as = None"
  using exit_error_cases [of e as] assms by auto

lemma owned_targets:
  assumes "owned n h w" and "ctx h = []"
  shows "file' h = Some a \<Longrightarrow> a < length (heap w) \<and> is_File (heap w ! a) \<and> released (heap w ! a)"
    and "client h = Some a \<Longrightarrow>
           a < length (heap w) \<and> is_AsyncClient (heap w ! a) \<and> released (heap w ! a)"
    and "s3_obj h = Some (a, b, k) \<Longrightarrow>
           a < length (heap w) \<and> is_S3Resource (heap w ! a) \<and> released (heap w ! a)"
    and "gcs_client h = Some a \<Longrightarrow>
           a < length (heap w) \<and> is_Storage (heap w ! a) \<and> released (heap w ! a)"
  using assms unfolding owned_def by auto

lemma LocalFileSystem_get_closed:
  assumes "owned n h w" and "ctx h = []"
  shows "\<exists>err. LocalFileSystem_get e h w offset len = (Inl err, w)"
proof (cases "file' h")
  case None
  then show ?thesis by (simp add: LocalFileSystem_get_def)
next
  case (Some a)
  have t: "a < length (heap w) \<and> is_File (heap w ! a) \<and> released (heap w ! a)"
    using assms Some by (rule owned_targets(1))
  then obtain c p where "heap w ! a = File c p True"
    by (cases "heap w ! a") auto
  then show ?thesis
    using Some t by (simp add: LocalFileSystem_get_def obj_at_def seek_def)
qed

lemma HttpFileSystem_get_closed:
  assumes "owned n h w" and "ctx h = []"
  shows "\<exists>err. HttpFileSystem_get e h w offset len = (Inl err, w)"
proof (cases "client h")
  case None
  then show ?thesis by (simp add: HttpFileSystem_get_def)
next
  case (Some a)
  have t: "a < length (heap w) \<and> is_AsyncClient (heap w ! a) \<and> released (heap w ! a)"
    using assms Some by (rule owned_targets(2))
  then have "heap w ! a = AsyncClient True"
    by (cases "heap w ! a") auto
  then show ?thesis
    using Some t by (simp add: HttpFileSystem_get_def obj_at_def)
qed

lemma S3FileSystem_get_closed:
  assumes "owned n h w" and "ctx h = []" and "s3_closed_error e \<noteq> None"
  shows "\<exists>err. S3FileSystem_get e h w offset len = (Inl err, w)"
proof (cases "s3_obj h")
  case None
  then show ?thesis by (simp add: S3FileSystem_get_def)
next
  case (Some x)
  obtain a b k where x: "x = (a, b, k)" by (cases x)
  have t: "a < length (heap w) \<and> is_S3Resource (heap w ! a) \<and> released (heap w ! a)"
    using assms(1,2) Some [unfolded x] by (rule owned_targets(3))
  then obtain s where "heap w ! a = S3Resource s True"
    by (cases "heap w ! a") auto
  then show ?thesis
    using Some x t assms(3) by (auto simp: S3FileSystem_get_def obj_at_def)
qed

lemma GcsFileSystem_get_closed:
  assumes "owned n h w" and "ctx h = []" and "gcs_closed_error e \<noteq> None"
  shows "\<exists>err. GcsFileSystem_get e h w offset len = (Inl err, w)"
proof (cases "gcs_client h")
  case None
  then show ?thesis by (simp add: GcsFileSystem_get_def)
next
  case (Some a)
  have t: "a < length (heap w) \<and> is_Storage (heap w ! a) \<and> released (heap w ! a)"
    using assms(1,2) Some by (rule owned_targets(4))
  then have "heap w ! a = Storage True"
    by (cases "heap w ! a") auto
  then show ?thesis
    using Some t assms(3)
    by (auto simp: GcsFileSystem_get_def obj_at_def split: option.splits)
qed

lemma get_closed:
  assumes "owned n h w" and "ctx h = []"
    and "cls h \<in> {S3FileSystem, AtlasS3FileSystem} \<longrightarrow> s3_closed_error e \<noteq> None"
    and "cls h = GcsFileSystem \<longrightarrow> gcs_closed_error e \<noteq> None"
  shows "\<exists>err. get e h w offset len = (Inl err, w)"
proof (cases "cls h")
  case LocalFileSystem
  then show ?thesis
    using LocalFileSystem_get_closed [OF assms(1,2)] by (simp add: get_def)
next
  case HttpFileSystem
  then show ?thesis
    using HttpFileSystem_get_closed [OF assms(1,2)] by (simp add: get_def)
next
  case S3FileSystem
  then have "s3_closed_error e \<noteq> None" using assms(3) by simp
  then show ?thesis
    using S3FileSystem S3FileSystem_get_closed [OF assms(1,2)] by (simp add: get_def)
next
  case AtlasS3FileSystem
  then have "s3_closed_error e \<noteq> None" using assms(3) by simp
  then show ?thesis
    using AtlasS3FileSystem S3FileSystem_get_closed [OF assms(1,2)] by (simp add: get_def)
next
  case GcsFileSystem
  then have "gcs_closed_error e \<noteq> None" using assms(4) by simp
  then show ?thesis
    using GcsFileSystem GcsFileSystem_get_closed [OF assms(1,2)] by (simp add: get_def)
qed

lemma get_new:
  "\<exists>name. get e ((new_handle c fp)\<lparr>request_payer := rp\<rparr>) w offset len =
     (Inl (AttributeError name), w)"
  by (cases c)
     (simp_all add: get_def new_handle_def LocalFileSystem_get_def HttpFileSystem_get_def
       S3FileSystem_get_def GcsFileSystem_get_def)

subsection \<open>Stripping slashes\<close>





subsection \<open>Example runs\<close>

lemma atlas_open_example:
  "aenter env0 (new_handle AtlasS3FileSystem ''atlas://host/key.ext'') world0 =
     (None,
      (new_handle AtlasS3FileSystem ''atlas://host/key.ext'')
        \<lparr>ctx := [1], s3_session := Some 0, s3_resource := Some 1,
         s3_obj := Some (1, ''images'', ''/key.ext'')\<rparr>,
      \<lparr>heap = [Session, S3Resource 0 False], sent = []\<rparr>)"
proof -
  have p: "urlparse_ref ''atlas://host/key.ext'' =
      Inr \<lparr>scheme = ''atlas'', netloc = ''host'', path = ''/key.ext''\<rparr>"
    using parse_atlas by (simp add: env0_def)
  show ?thesis
    by (simp add: aenter_defs new_handle_def world0_def env0_def obj_at_def p)
qed


lemma new_handle_sel:
  "cls (new_handle c fp) = c"
  "filepath (new_handle c fp) = fp"
  "file' (new_handle c fp) = None"
  "client (new_handle c fp) = None"
  "request_payer (new_handle c fp) = PyBool False"
  "s3_obj (new_handle c fp) = None"
  "gcs_client (new_handle c fp) = None"
  by (simp_all add: new_handle_def)

lemma env0_sel:
  "close_error env0 = (\<lambda>a. None)"
  "AWS_S3_ASYNC_CLIENT env0 = 0"
  "IMAGE_BUCKET_NAME env0 = ''images''"
  "s3_service env0 = (\<lambda>hist req. Inr ''body'')"
  by (simp_all add: env0_def)

lemma new_handle_payer:
  "(new_handle c fp)\<lparr>request_payer := PyBool False\<rparr> = new_handle c fp"
  by (simp add: new_handle_def)


lemma local_run_example:
  "run env0 [Open, Close] (new_handle LocalFileSystem ''/data/tiles.pmtiles'', world0) =
     ((new_handle LocalFileSystem ''/data/tiles.pmtiles'')\<lparr>ctx := [], file' := Some 1\<rparr>,
      \<lparr>heap = [Session, File hundred_bytes 0 True], sent = []\<rparr>)"
proof -
  let ?h1 = "(new_handle LocalFileSystem ''/data/tiles.pmtiles'')\<lparr>ctx := [1], file' := Some 1\<rparr>"
  let ?w1 = "\<lparr>heap = [Session, File hundred_bytes 0 False], sent = []\<rparr>"
  let ?h2 = "(new_handle LocalFileSystem ''/data/tiles.pmtiles'')\<lparr>ctx := [], file' := Some 1\<rparr>"
  let ?w2 = "\<lparr>heap = [Session, File hundred_bytes 0 True], sent = []\<rparr>"
  have 1: "step env0 (new_handle LocalFileSystem ''/data/tiles.pmtiles'', world0) Open = (?h1, ?w1)"
    by (simp add: local_open_example)
  have 2: "step env0 (?h1, ?w1) Close = (?h2, ?w2)"
    by (simp add: aexit_def close_at_def)
  show ?thesis by (simp only: run_def foldl.simps 1 2)
qed

lemma atlas_run_example:
  "run env0 [Open, Get 0 9, Close] (new_handle AtlasS3FileSystem ''atlas://host/key.ext'', world0) =
     ((new_handle AtlasS3FileSystem ''atlas://host/key.ext'')
        \<lparr>ctx := [], s3_session := Some 0, s3_resource := Some 1,
         s3_obj := Some (1, ''images'', ''/key.ext'')\<rparr>,
      \<lparr>heap = [Session, S3Resource 0 True],
       sent = [S3GetObject ''images'' ''/key.ext'' [(''Range'', PyStr ''bytes=0-9'')]]\<rparr>)"
proof -
  let ?h1 = "(new_handle AtlasS3FileSystem ''atlas://host/key.ext'')
        \<lparr>ctx := [1], s3_session := Some 0, s3_resource := Some 1,
         s3_obj := Some (1, ''images'', ''/key.ext'')\<rparr>"
  let ?w1 = "\<lparr>heap = [Session, S3Resource 0 False], sent = []\<rparr>"
  let ?w2 = "\<lparr>heap = [Session, S3Resource 0 False],
       sent = [S3GetObject ''images'' ''/key.ext'' [(''Range'', PyStr ''bytes=0-9'')]]\<rparr>"
  let ?h3 = "(new_handle AtlasS3FileSystem ''atlas://host/key.ext'')
        \<lparr>ctx := [], s3_session := Some 0, s3_resource := Some 1,
         s3_obj := Some (1, ''images'', ''/key.ext'')\<rparr>"
  let ?w3 = "\<lparr>heap = [Session, S3Resource 0 True],
       sent = [S3GetObject ''images'' ''/key.ext'' [(''Range'', PyStr ''bytes=0-9'')]]\<rparr>"
  have 1: "step env0 (new_handle AtlasS3FileSystem ''atlas://host/key.ext'', world0) Open = (?h1, ?w1)"
    by (simp add: atlas_open_example)
  have 2: "step env0 (?h1, ?w1) (Get 0 9) = (?h1, ?w2)"
    by (simp add: get_def S3FileSystem_get_def obj_at_def new_handle_sel env0_sel range_of_0_9)
  have 3: "step env0 (?h1, ?w2) Close = (?h3, ?w3)"
    by (simp add: aexit_def close_at_def)
  show ?thesis by (simp only: run_def foldl.simps 1 2 3)
qed

lemma s3_closed_run_example:
  "run env0 [Open, Close] (new_handle S3FileSystem ''s3://bucket/key.ext'', world0) =
     ((new_handle S3FileSystem ''s3://bucket/key.ext'')
        \<lparr>ctx := [], s3_session := Some 1, s3_resource := Some 2,
         s3_obj := Some (2, ''bucket'', ''key.ext'')\<rparr>,
      \<lparr>heap = [Session, Session, S3Resource 1 True], sent = []\<rparr>)"
proof -
  let ?h1 = "(new_handle S3FileSystem ''s3://bucket/key.ext'')
        \<lparr>ctx := [2], s3_session := Some 1, s3_resource := Some 2,
         s3_obj := Some (2, ''bucket'', ''key.ext'')\<rparr>"
  let ?w1 = "\<lparr>heap = [Session, Session, S3Resource 1 False], sent = []\<rparr>"
  let ?h2 = "(new_handle S3FileSystem ''s3://bucket/key.ext'')
        \<lparr>ctx := [], s3_session := Some 1, s3_resource := Some 2,
         s3_obj := Some (2, ''bucket'', ''key.ext'')\<rparr>"
  let ?w2 = "\<lparr>heap = [Session, Session, S3Resource 1 True], sent = []\<rparr>"
  have 1: "step env0 (new_handle S3FileSystem ''s3://bucket/key.ext'', world0) Open = (?h1, ?w1)"
    by (simp add: s3_open_example)
  have 2: "step env0 (?h1, ?w1) Close = (?h2, ?w2)"
    by (simp add: aexit_def close_at_def)
  show ?thesis by (simp only: run_def foldl.simps 1 2)
qed


subsection \<open>Closing\<close>



subsection \<open>Reading outside the open state\<close>

text \<open>
  C7, as the code has it. No class checks whether the handle is open; what happens is what
  the attribute or the client library does. On a new handle, \<open>get\<close> raises
  \<open>AttributeError\<close> and changes nothing, for every class. After the handle has been
  closed, whatever came before, \<open>get\<close> raises and changes nothing for the Local and the
  HTTP class, and for the object-store and cloud-bucket classes when their client library
  refuses a request on a closed client.
\<close>

theorem get_outside_open_fails:
  "(\<exists>name. get e ((new_handle c fp)\<lparr>request_payer := rp\<rparr>) w0 offset len =
      (Inl (AttributeError name), w0))
   \<and> (run e (ops @ [Close]) ((new_handle c fp)\<lparr>request_payer := rp\<rparr>, w0) = (h, w)
        \<and> (c \<in> {S3FileSystem, AtlasS3FileSystem} \<longrightarrow> s3_closed_error e \<noteq> None)
        \<and> (c = GcsFileSystem \<longrightarrow> gcs_closed_error e \<noteq> None)
      \<longrightarrow> (\<exists>err. get e h w offset len = (Inl err, w)))"
proof -
  let ?h0 = "(new_handle c fp)\<lparr>request_payer := rp\<rparr>"
  let ?n = "length (heap w0)"
  have after: "\<exists>err. get e h w offset len = (Inl err, w)"
    if run: "run e (ops @ [Close]) (?h0, w0) = (h, w)"
      and s3: "c \<in> {S3FileSystem, AtlasS3FileSystem} \<longrightarrow> s3_closed_error e \<noteq> None"
      and gcs: "c = GcsFileSystem \<longrightarrow> gcs_closed_error e \<noteq> None"
  proof -
    obtain h1 w1 where r1: "run e ops (?h0, w0) = (h1, w1)"
      by (cases "run e ops (?h0, w0)")
    have o1: "owned ?n h1 w1"
      using owned_run [OF owned_new r1] by simp
    have "step e (h1, w1) Close = (h, w)"
      using run r1 by (simp add: run_snoc)
    then obtain r where x: "aexit e h1 w1 = (r, h, w)"
      by (cases "aexit e h1 w1") simp
    have o: "owned ?n h w" and cx: "ctx h = []"
      using owned_aexit [OF o1 x] by simp_all
    have "cls h = cls ?h0" using run by (rule cls_run)
    then have k: "cls h = c" by (simp add: new_handle_def)
    show ?thesis
      using o cx by (rule get_closed) (simp_all add: k s3 gcs)
  qed
  have "\<exists>name. get e ?h0 w0 offset len = (Inl (AttributeError name), w0)"
    by (rule get_new)
  with after show ?thesis by blast
qed

theorem get_outside_open_fails_witness:
  "fst (get env0 (new_handle LocalFileSystem ''/data/tiles.pmtiles'') world0 0 9) =
     Inl (AttributeError ''file'')
   \<and> (case run env0 [Open, Close] (new_handle LocalFileSystem ''/data/tiles.pmtiles'', world0) of
        (h, w) \<Rightarrow> get env0 h w 0 9 = (Inl (ValueError ''seek of closed file''), w))
   \<and> s3_closed_error env0 \<noteq> None
   \<and> (case run env0 [Open, Close] (new_handle S3FileSystem ''s3://bucket/key.ext'', world0) of
        (h, w) \<Rightarrow> get env0 h w 0 9 = (Inl (RuntimeError ''Session is closed''), w))"
proof -
  let ?h = "(new_handle LocalFileSystem ''/data/tiles.pmtiles'')\<lparr>ctx := [], file' := Some 1\<rparr>"
  let ?w = "\<lparr>heap = [Session, File hundred_bytes 0 True], sent = []\<rparr>"
  let ?g = "(new_handle S3FileSystem ''s3://bucket/key.ext'')
        \<lparr>ctx := [], s3_session := Some 1, s3_resource := Some 2,
         s3_obj := Some (2, ''bucket'', ''key.ext'')\<rparr>"
  let ?v = "\<lparr>heap = [Session, Session, S3Resource 1 True], sent = []\<rparr>"
  have se: "s3_closed_error env0 = Some (RuntimeError ''Session is closed'')"
    by (simp add: env0_def)
  show ?thesis
    using get_outside_open_fails [where e = env0 and c = LocalFileSystem
        and fp = "''/data/tiles.pmtiles''" and rp = "PyBool False" and ?w0.0 = world0
        and offset = 0 and len = 9 and ops = "[Open]" and h = ?h and w = ?w]
      get_outside_open_fails [where e = env0 and c = S3FileSystem
        and fp = "''s3://bucket/key.ext''" and rp = "PyBool False" and ?w0.0 = world0
        and offset = 0 and len = 9 and ops = "[Open]" and h = ?g and w = ?v]
    by (simp add: local_run_example s3_closed_run_example get_def LocalFileSystem_get_def
        S3FileSystem_get_def seek_def obj_at_def new_handle_sel new_handle_payer se)
qed

text \<open>
  C7 as the claim words it promises an error after close for every handle. With an S3
  client library that serves a request on a resource whose context has been left, \<open>get\<close>
  on a closed generic object-store handle sends the request and returns the bytes.
\<close>

theorem get_after_close_counterexample:
  "fst (get (env0\<lparr>s3_closed_error := None\<rparr>)
         (fst (run (env0\<lparr>s3_closed_error := None\<rparr>) [Open, Close]
                (new_handle S3FileSystem ''s3://bucket/key.ext'', world0)))
         (snd (run (env0\<lparr>s3_closed_error := None\<rparr>) [Open, Close]
                (new_handle S3FileSystem ''s3://bucket/key.ext'', world0)))
         0 9) = Inr ''body''"
proof -
  let ?e = "env0\<lparr>s3_closed_error := None\<rparr>"
  let ?h = "(new_handle S3FileSystem ''s3://bucket/key.ext'')
        \<lparr>ctx := [], s3_session := Some 1, s3_resource := Some 2,
         s3_obj := Some (2, ''bucket'', ''key.ext'')\<rparr>"
  let ?w = "\<lparr>heap = [Session, Session, S3Resource 1 True], sent = []\<rparr>"
  have k: "strip_slash ''/key.ext'' = ''key.ext''" by code_simp
  have p: "urlparse_ref ''s3://bucket/key.ext'' =
      Inr \<lparr>scheme = ''s3'', netloc = ''bucket'', path = ''/key.ext''\<rparr>"
    using parse_s3 by (simp add: env0_def)
  have r: "run ?e [Open, Close] (new_handle S3FileSystem ''s3://bucket/key.ext'', world0) = (?h, ?w)"
    by (simp add: run_def aenter_defs aexit_def close_at_def new_handle_def world0_def env0_def k p)
  have g: "fst (get ?e ?h ?w 0 9) = Inr ''body''"
    by (simp add: get_def S3FileSystem_get_def obj_at_def new_handle_def env0_def)
  show ?thesis by (simp only: r fst_conv snd_conv g)
qed

subsection \<open>The borrowed session\<close>

text \<open>
  C9. Take a new specialized object-store handle in a store where the configured shared
  session exists, and let its caller open, read and close in any order. Afterwards the
  shared session is still there, every object that existed before the handle is as it
  was, no context on the exit stack is the shared session or any other object that
  existed before the handle, and a close changes no object other than those contexts.
\<close>

theorem shared_session_untouched:
  assumes "obj_at w0 (AWS_S3_ASYNC_CLIENT e) = Some Session"
    and "run e ops ((new_handle AtlasS3FileSystem fp)\<lparr>request_payer := rp\<rparr>, w0) = (h, w)"
  shows "obj_at w (AWS_S3_ASYNC_CLIENT e) = Some Session
       \<and> take (length (heap w0)) (heap w) = heap w0
       \<and> (\<forall>a\<in>set (ctx h). length (heap w0) \<le> a \<and> a \<noteq> AWS_S3_ASYNC_CLIENT e)
       \<and> (\<forall>a. a < length (heap w) \<and> a \<notin> set (ctx h) \<longrightarrow>
            heap (snd (snd (aexit e h w))) ! a = heap w ! a)"
proof -
  let ?n = "length (heap w0)"
  let ?s = "AWS_S3_ASYNC_CLIENT e"
  have s: "?s < ?n" and s0: "heap w0 ! ?s = Session"
    using assms(1) by (simp_all add: obj_at_def split: if_splits)
  have o: "owned ?n h w" and t: "take ?n (heap w) = take ?n (heap w0)"
    using owned_run [OF owned_new assms(2)] by simp_all
  have t': "take ?n (heap w) = heap w0" using t by simp
  have n: "?n \<le> length (heap w)" using o by (rule owned_le)
  have "heap w ! ?s = take ?n (heap w) ! ?s" using s by simp
  then have "heap w ! ?s = Session" using t' s0 by simp
  then have 1: "obj_at w ?s = Some Session" using s n by (simp add: obj_at_def)
  have 3: "\<forall>a\<in>set (ctx h). ?n \<le> a \<and> a \<noteq> ?s"
    using o s by (auto simp: owned_def)
  have 4: "\<forall>a. a < length (heap w) \<and> a \<notin> set (ctx h) \<longrightarrow>
            heap (snd (snd (aexit e h w))) ! a = heap w ! a"
    by (simp add: aexit_def nth_fold_close_at)
  from 1 t' 3 4 show ?thesis by blast
qed

theorem shared_session_untouched_witness:
  "obj_at world0 (AWS_S3_ASYNC_CLIENT env0) = Some Session
   \<and> (case run env0 [Open, Get 0 9, Close]
             (new_handle AtlasS3FileSystem ''atlas://host/key.ext'', world0) of
        (h, w) \<Rightarrow> heap w = [Session, S3Resource 0 True]
                 \<and> obj_at w (AWS_S3_ASYNC_CLIENT env0) = Some Session)"
proof -
  have hw: "heap world0 = [Session]"
    by (simp add: world0_def)
  have s: "obj_at world0 (AWS_S3_ASYNC_CLIENT env0) = Some Session"
    by (simp add: obj_at_def world0_def env0_def)
  let ?h = "(new_handle AtlasS3FileSystem ''atlas://host/key.ext'')
        \<lparr>ctx := [], s3_session := Some 0, s3_resource := Some 1,
         s3_obj := Some (1, ''images'', ''/key.ext'')\<rparr>"
  let ?w = "\<lparr>heap = [Session, S3Resource 0 True],
       sent = [S3GetObject ''images'' ''/key.ext'' [(''Range'', PyStr ''bytes=0-9'')]]\<rparr>"
  have r: "run env0 [Open, Get 0 9, Close]
      ((new_handle AtlasS3FileSystem ''atlas://host/key.ext'')\<lparr>request_payer := PyBool False\<rparr>, world0) =
      (?h, ?w)"
    by (simp add: new_handle_payer atlas_run_example)
  show ?thesis
    using shared_session_untouched [OF s r]
    by (simp add: atlas_run_example new_handle_payer obj_at_def env0_sel hw)
qed

subsection \<open>Bucket and key\<close>




subsection \<open>The key of the specialized handle\<close>

text \<open>
  C10. When the specialized object-store handle has been opened, its bucket is the
  configured \<open>IMAGE_BUCKET_NAME\<close> and its key is the parsed path as it is, leading slash
  included; the generic handle takes the network location and the path with the slashes
  stripped from both ends. For \<open>atlas://host/key.ext\<close> the key is \<open>/key.ext\<close>; for
  \<open>s3://bucket/key.ext\<close> it is \<open>key.ext\<close>.
\<close>

theorem atlas_key_is_raw_path:
  assumes "urlparse e (filepath h) = Inr parsed"
  shows "(cls h = AtlasS3FileSystem \<and> aenter e h w = (None, h', w') \<longrightarrow>
            (\<exists>r. s3_obj h' = Some (r, IMAGE_BUCKET_NAME e, path parsed)))
       \<and> (cls h = S3FileSystem \<and> aenter e h w = (None, h', w') \<longrightarrow>
            (\<exists>r. s3_obj h' = Some (r, netloc parsed, strip_slash (path parsed))))"
proof -
  have 1: "cls h = AtlasS3FileSystem \<and> aenter e h w = (None, h', w') \<longrightarrow>
            (\<exists>r. s3_obj h' = Some (r, IMAGE_BUCKET_NAME e, path parsed))"
    using assms
    by (auto simp: aenter_def AtlasS3FileSystem_aenter_def alloc_def Let_def
        split: if_splits option.splits)
  have 2: "cls h = S3FileSystem \<and> aenter e h w = (None, h', w') \<longrightarrow>
            (\<exists>r. s3_obj h' = Some (r, netloc parsed, strip_slash (path parsed)))"
    using assms
    by (auto simp: aenter_def S3FileSystem_aenter_def alloc_def Let_def
        split: if_splits option.splits)
  from 1 2 show ?thesis by blast
qed

theorem atlas_key_is_raw_path_witness:
  "s3_obj (fst (snd (aenter env0 (new_handle AtlasS3FileSystem ''atlas://host/key.ext'') world0))) =
     Some (1, ''images'', ''/key.ext'')
   \<and> s3_obj (fst (snd (aenter env0 (new_handle S3FileSystem ''s3://bucket/key.ext'') world0))) =
     Some (2, ''bucket'', ''key.ext'')"
proof -
  have k: "strip_slash ''/key.ext'' = ''key.ext''" by code_simp
  have i: "IMAGE_BUCKET_NAME env0 = ''images''" by (simp add: env0_def)
  have pa: "urlparse env0 (filepath (new_handle AtlasS3FileSystem ''atlas://host/key.ext'')) =
      Inr \<lparr>scheme = ''atlas'', netloc = ''host'', path = ''/key.ext''\<rparr>"
    by (simp add: new_handle_sel parse_atlas)
  have ps: "urlparse env0 (filepath (new_handle S3FileSystem ''s3://bucket/key.ext'')) =
      Inr \<lparr>scheme = ''s3'', netloc = ''bucket'', path = ''/key.ext''\<rparr>"
    by (simp add: new_handle_sel parse_s3)
  show ?thesis
    using atlas_key_is_raw_path [OF pa, where w = world0
        and h' = "fst (snd (aenter env0 (new_handle AtlasS3FileSystem ''atlas://host/key.ext'') world0))"
        and w' = "snd (snd (aenter env0 (new_handle AtlasS3FileSystem ''atlas://host/key.ext'') world0))"]
      atlas_key_is_raw_path [OF ps, where w = world0
        and h' = "fst (snd (aenter env0 (new_handle S3FileSystem ''s3://bucket/key.ext'') world0))"
        and w' = "snd (snd (aenter env0 (new_handle S3FileSystem ''s3://bucket/key.ext'') world0))"]
    by (simp add: atlas_open_example s3_open_example k i new_handle_sel)
qed

end
